theory Spec2Isabelle
  imports Main "HOL-Library.Word"
begin

unbundle bit_operations_syntax

section \<open>Data model of nsyshid.cpp\<close>

text \<open>
  Machine integers are words: \<open>uint8\<close>, \<open>uint16\<close>, \<open>uint32\<close> and \<open>sint32\<close> (a 32-bit
  word read through \<open>sint\<close>). \<open>MPTR\<close> is a 32-bit guest address. A
  \<open>std::shared_ptr<Device>\<close> and a \<open>HIDClient_t*\<close> are compared by address only, so
  both are modelled by the identity of the object they point to. A host pointer into guest
  memory (\<open>uint8*\<close>) is the offset of the byte it points to.
\<close>

type_synonym u8 = "8 word"
type_synonym u16 = "16 word"
type_synonym u32 = "32 word"
type_synonym s32 = "32 word"
type_synonym MPTR = "32 word"
type_synonym dev_ptr = nat
type_synonym client_ptr = nat
type_synonym mem = "nat \<Rightarrow> u8"

definition MPTR_NULL :: MPTR where
  "MPTR_NULL = 0"

definition HID_MAX_NUM_DEVICES :: nat where
  "HID_MAX_NUM_DEVICES = 128"

definition HID_CALLBACK_DETACH :: u32 where
  "HID_CALLBACK_DETACH = 0"

definition HID_CALLBACK_ATTACH :: u32 where
  "HID_CALLBACK_ATTACH = 1"

text \<open>
  \<open>HID_t\<close> is declared in nsyshid.h; the fields are the ones \<open>Device::AssignHID\<close> and
  \<open>AttachDevice\<close> write.
\<close>

record HID_t =
  handle :: u32
  ukn04 :: u32
  vendorId :: u16
  productId :: u16
  ifIndex :: u8
  subClass :: u8
  protocol :: u8
  paddingGuessed0F :: u8
  maxPacketSizeRX :: u16
  maxPacketSizeTX :: u16

datatype ReadResult = ReadSuccess | ReadError | ReadErrorTimeout

datatype WriteResult = WriteSuccess | WriteError | WriteErrorTimeout

text \<open>
  Modelled from the spec: the class \<open>Device\<close> is declared in Backend.h, which is not part
  of the sources. The data members are the ones the constructor \<open>Device::Device\<close>
  initialises; \<open>m_hid\<close> is the pointer to the bound slot of \<open>HIDPool\<close> (\<open>None\<close> is
  \<open>nullptr\<close>, \<open>Some i\<close> is \<open>HIDPool.GetPtr() + i\<close>). The virtual capability set of the
  spec (open, close, isOpened, getDescriptor, setIdle, setProtocol, setReport, read, write)
  is a record of functions: \<open>isOpened\<close> is the open/closed flag, \<open>openSucceeds\<close> tells
  whether \<open>Open()\<close> returns true, \<open>GetDescriptor\<close> returns its verdict and the bytes it
  stores at the start of the output buffer, \<open>Read\<close> returns its verdict, the
  \<open>bytesRead\<close> it leaves in the message and the guest memory it leaves behind, \<open>Write\<close>
  its verdict and the \<open>bytesWritten\<close> of the message.
\<close>

record Device =
  m_hid :: "nat option"
  m_vendorId :: u16
  m_productId :: u16
  m_interfaceIndex :: u8
  m_interfaceSubClass :: u8
  m_protocol :: u8
  m_maxPacketSizeRX :: u16
  m_maxPacketSizeTX :: u16
  isOpened :: bool
  openSucceeds :: bool
  devGetDescriptor :: "u8 \<Rightarrow> u8 \<Rightarrow> u16 \<Rightarrow> u32 \<Rightarrow> bool \<times> u8 list"
  devSetIdle :: "u8 \<Rightarrow> u8 \<Rightarrow> u8 \<Rightarrow> bool"
  devSetProtocol :: "u8 \<Rightarrow> u8 \<Rightarrow> bool"
  devSetReport :: "u8 \<Rightarrow> u8 \<Rightarrow> u8 list \<Rightarrow> bool"
  devRead :: "mem \<Rightarrow> nat \<Rightarrow> s32 \<Rightarrow> ReadResult \<times> s32 \<times> mem"
  devWrite :: "mem \<Rightarrow> nat \<Rightarrow> s32 \<Rightarrow> WriteResult \<times> s32"

text \<open>
  A guest callback, as handed to \<open>coreinitAsyncCallback_add\<close> (queued) or to
  \<open>PPCCoreCallback\<close> (run inline): the attach/detach callback of a client
  \<open>(func, client, hid slot, kind)\<close> and the completion callback of a transfer
  \<open>(func, hidHandle, errorCode, buffer, length, param)\<close>.
\<close>

datatype callback =
  ClientCallback MPTR client_ptr "nat option" u32
| TransferCallback MPTR u32 s32 nat s32 MPTR

text \<open>
  What the file does to the registry, to the pool, to the callback services and to a
  device, as events: \<open>deviceList.push_back\<close> and \<open>deviceList.erase\<close>, a slot handed
  out by \<open>GetFreeHID\<close> or taken back by \<open>ReleaseHID\<close>, a callback handed to
  \<open>coreinitAsyncCallback_add\<close> or run by \<open>PPCCoreCallback\<close>, and a call of
  \<open>Device::Open\<close> or \<open>Device::Close\<close>.
\<close>

datatype event =
  RegistryPushBack dev_ptr
| RegistryErase dev_ptr
| SlotAcquired nat
| SlotReleased nat
| CallbackQueued callback
| CallbackRun callback
| DeviceOpenCalled dev_ptr
| DeviceCloseCalled dev_ptr

text \<open>The work handed to a detached \<open>std::thread\<close> by an asynchronous transfer.\<close>

datatype task =
  GetDescriptorAsync dev_ptr u8 u8 u16 nat u32 MPTR MPTR
| SetIdleAsync dev_ptr u8 u8 u8 MPTR MPTR
| SetProtocolAsync dev_ptr u8 u8 MPTR MPTR
| SetReportAsync dev_ptr u8 u8 nat u32 MPTR MPTR
| ReadAsync dev_ptr nat s32 MPTR MPTR
| WriteAsync dev_ptr nat s32 MPTR MPTR

text \<open>
  The globals of the namespace, the heap of \<open>Device\<close> objects, the \<open>callbackFunc\<close>
  member of every \<open>HIDClient_t\<close>, guest memory, and the two services the file calls:
  the queue of \<open>coreinitAsyncCallback_add\<close> and the guest callbacks run inline by
  \<open>PPCCoreCallback\<close>, in call order. \<open>hidMutex\<close> is the recursion depth at which the
  running thread holds the recursive mutex. \<open>trace\<close> lists the events in the order in which
  the program produces them, each with the depth at which \<open>hidMutex\<close> is held at that
  moment (0: not held).
\<close>

record nsyshid =
  deviceList :: "dev_ptr list"
  HIDClientList :: "client_ptr list"
  hidMutex :: nat
  lastGeneratedHidHandle :: u32
  HIDPool :: "nat \<Rightarrow> HID_t"
  HIDPoolIndexQueue :: "nat list"
  HIDPoolIndexQueueInitialized :: bool
  devices :: "dev_ptr \<Rightarrow> Device"
  callbackFunc :: "client_ptr \<Rightarrow> MPTR"
  memory :: mem
  asyncCallbacks :: "callback list"
  coreCallbacks :: "callback list"
  threads :: "task list"
  trace :: "(nat \<times> event) list"

text \<open>The state at program start: \<open>_lastGeneratedHidHandle = 1\<close>, every container empty.\<close>

definition initial :: "(nat \<Rightarrow> HID_t) \<Rightarrow> (dev_ptr \<Rightarrow> Device) \<Rightarrow> (client_ptr \<Rightarrow> MPTR) \<Rightarrow> mem \<Rightarrow> nsyshid" where
  "initial pool devs cbs m =
     \<lparr>deviceList = [], HIDClientList = [], hidMutex = 0, lastGeneratedHidHandle = 1,
      HIDPool = pool, HIDPoolIndexQueue = [], HIDPoolIndexQueueInitialized = False,
      devices = devs, callbackFunc = cbs, memory = m,
      asyncCallbacks = [], coreCallbacks = [], threads = [], trace = []\<rparr>"

section \<open>The lock, the handle generator and the pool\<close>

definition lock :: "nsyshid \<Rightarrow> nsyshid" where
  "lock s = s\<lparr>hidMutex := Suc (hidMutex s)\<rparr>"

definition unlock :: "nsyshid \<Rightarrow> nsyshid" where
  "unlock s = s\<lparr>hidMutex := hidMutex s - 1\<rparr>"

definition emit :: "nsyshid \<Rightarrow> event \<Rightarrow> nsyshid" where
  "emit s e = s\<lparr>trace := trace s @ [(hidMutex s, e)]\<rparr>"

definition AttachClientToList :: "nsyshid \<Rightarrow> client_ptr \<Rightarrow> nsyshid" where
  "AttachClientToList s hidClient =
     (let s1 = lock s;
          s2 = s1\<lparr>HIDClientList := hidClient # HIDClientList s1\<rparr>
      in unlock s2)"

definition DetachClientFromList :: "nsyshid \<Rightarrow> client_ptr \<Rightarrow> nsyshid" where
  "DetachClientFromList s hidClient =
     (let s1 = lock s;
          s2 = s1\<lparr>HIDClientList := removeAll hidClient (HIDClientList s1)\<rparr>
      in unlock s2)"

definition GenerateHIDHandle :: "nsyshid \<Rightarrow> u32 \<times> nsyshid" where
  "GenerateHIDHandle s =
     (let s1 = lock s;
          s2 = s1\<lparr>lastGeneratedHidHandle := lastGeneratedHidHandle s1 + 1\<rparr>
      in (lastGeneratedHidHandle s2, unlock s2))"

definition InitHIDPoolIndexQueue :: "nsyshid \<Rightarrow> nsyshid" where
  "InitHIDPoolIndexQueue s =
     (let s1 = lock s in
      if HIDPoolIndexQueueInitialized s1 then unlock s1
      else unlock (s1\<lparr>HIDPoolIndexQueueInitialized := True,
                       HIDPoolIndexQueue := HIDPoolIndexQueue s1 @ [0..<HID_MAX_NUM_DEVICES]\<rparr>))"

definition GetFreeHID :: "nsyshid \<Rightarrow> nat option \<times> nsyshid" where
  "GetFreeHID s =
     (let s1 = InitHIDPoolIndexQueue (lock s) in
      case HIDPoolIndexQueue s1 of
        [] \<Rightarrow> (None, unlock s1)
      | index # rest \<Rightarrow>
          (Some index, unlock (emit (s1\<lparr>HIDPoolIndexQueue := rest\<rparr>) (SlotAcquired index))))"

text \<open>
  \<open>ReleaseHID(nullptr)\<close> runs into \<open>cemu_assert_error()\<close>: the model stops with \<open>None\<close>.
\<close>

definition ReleaseHID :: "nsyshid \<Rightarrow> nat option \<Rightarrow> nsyshid option" where
  "ReleaseHID s device =
     (case device of
        None \<Rightarrow> None
      | Some index \<Rightarrow>
          (let s1 = InitHIDPoolIndexQueue (lock s);
               s2 = emit (s1\<lparr>HIDPoolIndexQueue := HIDPoolIndexQueue s1 @ [index]\<rparr>) (SlotReleased index)
           in Some (unlock s2)))"

section \<open>Callbacks\<close>

definition coreinitAsyncCallback_add :: "nsyshid \<Rightarrow> callback \<Rightarrow> nsyshid" where
  "coreinitAsyncCallback_add s cb =
     emit (s\<lparr>asyncCallbacks := asyncCallbacks s @ [cb]\<rparr>) (CallbackQueued cb)"

text \<open>
  \<open>PPCCoreCallback\<close> runs the guest function before it returns. The guest code is not
  part of this file: the model records the call and leaves the rest of the state alone.
\<close>

definition PPCCoreCallback :: "nsyshid \<Rightarrow> callback \<Rightarrow> nsyshid" where
  "PPCCoreCallback s cb =
     emit (s\<lparr>coreCallbacks := coreCallbacks s @ [cb]\<rparr>) (CallbackRun cb)"

definition DoAttachCallback :: "nsyshid \<Rightarrow> client_ptr \<Rightarrow> dev_ptr \<Rightarrow> nsyshid" where
  "DoAttachCallback s hidClient device =
     PPCCoreCallback s
       (ClientCallback (callbackFunc s hidClient) hidClient (m_hid (devices s device)) HID_CALLBACK_ATTACH)"

definition DoAttachCallbackAsync :: "nsyshid \<Rightarrow> client_ptr \<Rightarrow> dev_ptr \<Rightarrow> nsyshid" where
  "DoAttachCallbackAsync s hidClient device =
     coreinitAsyncCallback_add s
       (ClientCallback (callbackFunc s hidClient) hidClient (m_hid (devices s device)) HID_CALLBACK_ATTACH)"

definition DoDetachCallback :: "nsyshid \<Rightarrow> client_ptr \<Rightarrow> dev_ptr \<Rightarrow> nsyshid" where
  "DoDetachCallback s hidClient device =
     PPCCoreCallback s
       (ClientCallback (callbackFunc s hidClient) hidClient (m_hid (devices s device)) HID_CALLBACK_DETACH)"

definition DoDetachCallbackAsync :: "nsyshid \<Rightarrow> client_ptr \<Rightarrow> dev_ptr \<Rightarrow> nsyshid" where
  "DoDetachCallbackAsync s hidClient device =
     coreinitAsyncCallback_add s
       (ClientCallback (callbackFunc s hidClient) hidClient (m_hid (devices s device)) HID_CALLBACK_DETACH)"

section \<open>Attaching and detaching devices\<close>

text \<open>\<open>Device::AssignHID\<close>: fills the slot from the device, then binds it.\<close>

definition AssignHID :: "nsyshid \<Rightarrow> dev_ptr \<Rightarrow> nat option \<Rightarrow> nsyshid" where
  "AssignHID s this hid =
     (let d = devices s this;
          s1 = (case hid of
                  None \<Rightarrow> s
                | Some i \<Rightarrow>
                    s\<lparr>HIDPool := (HIDPool s)(i := (HIDPool s i)
                         \<lparr>ukn04 := 0x11223344,
                          vendorId := m_vendorId d,
                          productId := m_productId d,
                          ifIndex := m_interfaceIndex d,
                          subClass := m_interfaceSubClass d,
                          protocol := m_protocol d,
                          paddingGuessed0F := 0,
                          maxPacketSizeRX := m_maxPacketSizeRX d,
                          maxPacketSizeTX := m_maxPacketSizeTX d\<rparr>)\<rparr>)
      in s1\<lparr>devices := (devices s1)(this := d\<lparr>m_hid := hid\<rparr>)\<rparr>)"

definition AttachDevice :: "nsyshid \<Rightarrow> dev_ptr \<Rightarrow> bool \<times> nsyshid" where
  "AttachDevice s device =
     (let s1 = lock s in
      if device \<in> set (deviceList s1) then (False, unlock s1)
      else
        (case GetFreeHID s1 of
           (None, s2) \<Rightarrow> (False, unlock s2)
         | (Some i, s2) \<Rightarrow>
             (let (h, s3) = GenerateHIDHandle s2;
                  s4 = s3\<lparr>HIDPool := (HIDPool s3)(i := (HIDPool s3 i)\<lparr>handle := h\<rparr>)\<rparr>;
                  s5 = AssignHID s4 device (Some i);
                  s6 = emit (s5\<lparr>deviceList := deviceList s5 @ [device]\<rparr>) (RegistryPushBack device);
                  s7 = foldl (\<lambda>st client. DoAttachCallbackAsync st client device) s6 (HIDClientList s6)
              in (True, unlock s7))))"

text \<open>
  Modelled from the spec: \<open>Device::Close\<close> is implemented by the backends, which are not
  part of the sources; the spec gives a device an open/closed flag, which closing clears.
\<close>

definition Device_Close :: "nsyshid \<Rightarrow> dev_ptr \<Rightarrow> nsyshid" where
  "Device_Close s device =
     (let s1 = emit s (DeviceCloseCalled device)
      in s1\<lparr>devices := (devices s1)(device := (devices s1 device)\<lparr>isOpened := False\<rparr>)\<rparr>)"

text \<open>
  The block of \<open>DetachDevice\<close> that runs under the \<open>lock_guard\<close>: \<open>None\<close> is the failed
  assertion of \<open>ReleaseHID\<close>, \<open>Some (found, s)\<close> tells whether the device was in the list.
  \<open>deviceList.erase(it)\<close> removes the first occurrence, the one \<open>std::find\<close> returned.
\<close>

definition DetachDevice_locked :: "nsyshid \<Rightarrow> dev_ptr \<Rightarrow> (bool \<times> nsyshid) option" where
  "DetachDevice_locked s device =
     (let s1 = lock s in
      if device \<notin> set (deviceList s1) then Some (False, unlock s1)
      else
        (let s2 = emit (s1\<lparr>deviceList := remove1 device (deviceList s1)\<rparr>) (RegistryErase device);
             s3 = foldl (\<lambda>st client. DoDetachCallbackAsync st client device) s2 (HIDClientList s2)
         in case ReleaseHID s3 (m_hid (devices s3 device)) of
              None \<Rightarrow> None
            | Some s4 \<Rightarrow> Some (True, unlock s4)))"

definition DetachDevice :: "nsyshid \<Rightarrow> dev_ptr \<Rightarrow> nsyshid option" where
  "DetachDevice s device =
     (case DetachDevice_locked s device of
        None \<Rightarrow> None
      | Some (False, s1) \<Rightarrow> Some s1
      | Some (True, s1) \<Rightarrow> Some (Device_Close s1 device))"

section \<open>Looking a device up by its handle\<close>

text \<open>
  Modelled from the spec: \<open>Device::Open\<close> is implemented by the backends; a successful
  open sets the open/closed flag of the spec, a failed one leaves the device closed.
\<close>

definition Device_Open :: "nsyshid \<Rightarrow> dev_ptr \<Rightarrow> bool \<times> nsyshid" where
  "Device_Open s device =
     (let s1 = emit s (DeviceOpenCalled device)
      in if openSucceeds (devices s1 device)
         then (True, s1\<lparr>devices := (devices s1)(device := (devices s1 device)\<lparr>isOpened := True\<rparr>)\<rparr>)
         else (False, s1))"

text \<open>
  \<open>device->m_hid->handle\<close>: \<open>None\<close> is the dereference of a null \<open>m_hid\<close>.
\<close>

definition m_hid_handle :: "nsyshid \<Rightarrow> dev_ptr \<Rightarrow> u32 option" where
  "m_hid_handle s device =
     (case m_hid (devices s device) of
        None \<Rightarrow> None
      | Some i \<Rightarrow> Some (handle (HIDPool s i)))"

text \<open>
  The search loop of \<open>GetDeviceByHandle\<close>: \<open>None\<close> is a crash (null \<open>m_hid\<close>),
  \<open>Some None\<close> is no match, \<open>Some (Some d)\<close> the first match.
\<close>

fun GetDeviceByHandle_loop :: "nsyshid \<Rightarrow> u32 \<Rightarrow> dev_ptr list \<Rightarrow> dev_ptr option option" where
  "GetDeviceByHandle_loop s h [] = Some None"
| "GetDeviceByHandle_loop s h (d # ds) =
     (case m_hid_handle s d of
        None \<Rightarrow> None
      | Some h' \<Rightarrow> if h' = h then Some (Some d) else GetDeviceByHandle_loop s h ds)"

definition GetDeviceByHandle :: "nsyshid \<Rightarrow> u32 \<Rightarrow> bool \<Rightarrow> (dev_ptr option \<times> nsyshid) option" where
  "GetDeviceByHandle s h openIfClosed =
     (let s1 = lock s in
      case GetDeviceByHandle_loop s1 h (deviceList s1) of
        None \<Rightarrow> None
      | Some None \<Rightarrow> Some (None, unlock s1)
      | Some (Some device) \<Rightarrow>
          (let s2 = unlock s1 in
           if openIfClosed \<and> \<not> isOpened (devices s2 device)
           then (case Device_Open s2 device of
                   (False, s3) \<Rightarrow> Some (None, s3)
                 | (True, s3) \<Rightarrow> Some (Some device, s3))
           else Some (Some device, s2)))"

definition FindDeviceById :: "nsyshid \<Rightarrow> u16 \<Rightarrow> u16 \<Rightarrow> dev_ptr option" where
  "FindDeviceById s vid pid =
     find (\<lambda>d. m_vendorId (devices s d) = vid \<and> m_productId (devices s d) = pid) (deviceList s)"

section \<open>Registering clients\<close>

definition export_HIDAddClient :: "nsyshid \<Rightarrow> client_ptr \<Rightarrow> MPTR \<Rightarrow> s32 \<times> nsyshid" where
  "export_HIDAddClient s hidClient callbackFuncMPTR =
     (let s1 = s\<lparr>callbackFunc := (callbackFunc s)(hidClient := callbackFuncMPTR)\<rparr>;
          s2 = lock s1;
          s3 = AttachClientToList s2 hidClient;
          s4 = foldl (\<lambda>st device. DoAttachCallback st hidClient device) s3 (deviceList s3)
      in (0, unlock s4))"

definition export_HIDDelClient :: "nsyshid \<Rightarrow> client_ptr \<Rightarrow> s32 \<times> nsyshid" where
  "export_HIDDelClient s hidClient =
     (let s1 = lock s;
          s2 = DetachClientFromList s1 hidClient;
          s3 = foldl (\<lambda>st device. DoDetachCallback st hidClient device) s2 (deviceList s2)
      in (0, unlock s3))"

section \<open>Guest memory\<close>

text \<open>
  \<open>memset\<close> writes \<open>n\<close> bytes. No process has \<open>2 ^ 63\<close> bytes of memory mapped in one
  piece, so with such a size the call runs into unmapped memory and the program dies:
  \<open>None\<close>.
\<close>

definition memset :: "mem \<Rightarrow> nat \<Rightarrow> u8 \<Rightarrow> nat \<Rightarrow> mem option" where
  "memset m p v n =
     (if 2 ^ 63 \<le> n then None
      else Some (\<lambda>a. if p \<le> a \<and> a < p + n then v else m a))"

text \<open>
  The conversion of a \<open>sint32\<close> argument to the 64-bit \<open>size_t\<close> parameter of
  \<open>memset\<close>: a negative length becomes a size of at least \<open>2 ^ 64 - 2 ^ 31\<close>.
\<close>

definition size_t_of_sint32 :: "s32 \<Rightarrow> nat" where
  "size_t_of_sint32 x = unat (scast x :: 64 word)"

definition write_bytes :: "mem \<Rightarrow> nat \<Rightarrow> u8 list \<Rightarrow> mem" where
  "write_bytes m p bs = (\<lambda>a. if p \<le> a \<and> a < p + length bs then bs ! (a - p) else m a)"

definition read_bytes :: "mem \<Rightarrow> nat \<Rightarrow> nat \<Rightarrow> u8 list" where
  "read_bytes m p n = map m [p..<p + n]"

text \<open>A \<open>uint32be\<close> object in guest memory: four bytes, most significant first.\<close>

definition store_u32be :: "mem \<Rightarrow> nat \<Rightarrow> u32 \<Rightarrow> mem" where
  "store_u32be m p v =
     m(p := ucast (drop_bit 24 v), p + 1 := ucast (drop_bit 16 v),
       p + 2 := ucast (drop_bit 8 v), p + 3 := ucast v)"

definition load_u32be :: "mem \<Rightarrow> nat \<Rightarrow> u32" where
  "load_u32be m p =
     push_bit 24 (ucast (m p)) OR push_bit 16 (ucast (m (p + 1))) OR
     push_bit 8 (ucast (m (p + 2))) OR ucast (m (p + 3))"

section \<open>Transfers\<close>

text \<open>
  The helpers \<open>_hidGetDescriptorAsync\<close>, \<open>_hidSetIdleAsync\<close>, \<open>_hidSetProtocolAsync\<close>,
  \<open>_hidSetReportAsync\<close>, \<open>_hidSetReportSync\<close>, \<open>_hidReadInternalSync\<close>,
  \<open>_hidReadAsync\<close>, \<open>_hidReadSync\<close> and their Write counterparts keep their names
  without the leading underscore. A synchronous transfer that the source runs through
  \<open>std::async\<close> and waits for is a plain call; an asynchronous one appends its work to
  \<open>threads\<close>, and \<open>run_task\<close> is what the thread then does.
\<close>

definition DoHIDTransferCallback :: "nsyshid \<Rightarrow> MPTR \<Rightarrow> MPTR \<Rightarrow> u32 \<Rightarrow> s32 \<Rightarrow> nat \<Rightarrow> s32 \<Rightarrow> nsyshid" where
  "DoHIDTransferCallback s callbackFuncMPTR callbackParamMPTR hidHandle errorCode buffer len =
     coreinitAsyncCallback_add s
       (TransferCallback callbackFuncMPTR hidHandle errorCode buffer len callbackParamMPTR)"

text \<open>The calls into the device: each applies the capability and stores what it writes.\<close>

definition Device_GetDescriptor :: "nsyshid \<Rightarrow> dev_ptr \<Rightarrow> u8 \<Rightarrow> u8 \<Rightarrow> u16 \<Rightarrow> nat \<Rightarrow> u32 \<Rightarrow> bool \<times> nsyshid" where
  "Device_GetDescriptor s device descType descIndex lang output outputMaxLength =
     (let (ok, bs) = devGetDescriptor (devices s device) descType descIndex lang outputMaxLength
      in (ok, s\<lparr>memory := write_bytes (memory s) output bs\<rparr>))"

definition Device_SetReport :: "nsyshid \<Rightarrow> dev_ptr \<Rightarrow> u8 \<Rightarrow> u8 \<Rightarrow> nat \<Rightarrow> u32 \<Rightarrow> bool" where
  "Device_SetReport s device reportType reportId data len =
     devSetReport (devices s device) reportType reportId (read_bytes (memory s) data (unat len))"

definition hidGetDescriptorAsync :: "nsyshid \<Rightarrow> dev_ptr \<Rightarrow> u8 \<Rightarrow> u8 \<Rightarrow> u16 \<Rightarrow> nat \<Rightarrow> u32 \<Rightarrow> MPTR \<Rightarrow> MPTR \<Rightarrow> nsyshid option" where
  "hidGetDescriptorAsync s device descType descIndex lang output outputMaxLength callbackFuncMPTR callbackParamMPTR =
     (let (ok, s1) = Device_GetDescriptor s device descType descIndex lang output outputMaxLength
      in case m_hid_handle s1 device of
           None \<Rightarrow> None
         | Some h \<Rightarrow>
             Some (DoHIDTransferCallback s1 callbackFuncMPTR callbackParamMPTR h (if ok then 0 else - 1) 0 0))"

definition export_HIDGetDescriptor :: "nsyshid \<Rightarrow> u32 \<Rightarrow> u8 \<Rightarrow> u8 \<Rightarrow> u16 \<Rightarrow> nat \<Rightarrow> u32 \<Rightarrow> MPTR \<Rightarrow> MPTR \<Rightarrow> (s32 \<times> nsyshid) option" where
  "export_HIDGetDescriptor s hidHandle descType descIndex lang output outputMaxLength cbFuncMPTR cbParamMPTR =
     (case GetDeviceByHandle s hidHandle True of
        None \<Rightarrow> None
      | Some (None, s1) \<Rightarrow> Some (- 1, s1)
      | Some (Some device, s1) \<Rightarrow>
          if cbFuncMPTR = MPTR_NULL
          then (let (ok, s2) = Device_GetDescriptor s1 device descType descIndex lang output outputMaxLength
                in Some (if ok then outputMaxLength else - 1, s2))
          else Some (0, s1\<lparr>threads := threads s1 @
                 [GetDescriptorAsync device descType descIndex lang output outputMaxLength cbFuncMPTR cbParamMPTR]\<rparr>))"

definition hidSetIdleAsync :: "nsyshid \<Rightarrow> dev_ptr \<Rightarrow> u8 \<Rightarrow> u8 \<Rightarrow> u8 \<Rightarrow> MPTR \<Rightarrow> MPTR \<Rightarrow> nsyshid option" where
  "hidSetIdleAsync s device ifIdx reportId duration callbackFuncMPTR callbackParamMPTR =
     (let ok = devSetIdle (devices s device) ifIdx reportId duration
      in case m_hid_handle s device of
           None \<Rightarrow> None
         | Some h \<Rightarrow>
             Some (DoHIDTransferCallback s callbackFuncMPTR callbackParamMPTR h (if ok then 0 else - 1) 0 0))"


definition hidSetProtocolAsync :: "nsyshid \<Rightarrow> dev_ptr \<Rightarrow> u8 \<Rightarrow> u8 \<Rightarrow> MPTR \<Rightarrow> MPTR \<Rightarrow> nsyshid option" where
  "hidSetProtocolAsync s device ifIdx prot callbackFuncMPTR callbackParamMPTR =
     (let ok = devSetProtocol (devices s device) ifIdx prot
      in case m_hid_handle s device of
           None \<Rightarrow> None
         | Some h \<Rightarrow>
             Some (DoHIDTransferCallback s callbackFuncMPTR callbackParamMPTR h (if ok then 0 else - 1) 0 0))"


definition hidSetReportAsync :: "nsyshid \<Rightarrow> dev_ptr \<Rightarrow> u8 \<Rightarrow> u8 \<Rightarrow> nat \<Rightarrow> u32 \<Rightarrow> MPTR \<Rightarrow> MPTR \<Rightarrow> nsyshid option" where
  "hidSetReportAsync s device reportType reportId data len callbackFuncMPTR callbackParamMPTR =
     (let ok = Device_SetReport s device reportType reportId data len
      in case m_hid_handle s device of
           None \<Rightarrow> None
         | Some h \<Rightarrow>
             Some (DoHIDTransferCallback s callbackFuncMPTR callbackParamMPTR h (if ok then 0 else - 1) data len))"



text \<open>
  \<open>None\<close> is the crash of \<open>memset(data, 0, maxLength)\<close> for a negative \<open>maxLength\<close>: it
  comes after the check of \<open>IsOpened\<close> and before the device is asked to read.
\<close>

definition hidReadInternalSync :: "nsyshid \<Rightarrow> dev_ptr \<Rightarrow> nat \<Rightarrow> s32 \<Rightarrow> (s32 \<times> nsyshid) option" where
  "hidReadInternalSync s device data maxLength =
     (if \<not> isOpened (devices s device) then Some (- 1, s)
      else
        (case memset (memory s) data 0 (size_t_of_sint32 maxLength) of
           None \<Rightarrow> None
         | Some z \<Rightarrow>
             (let s1 = s\<lparr>memory := z\<rparr>;
                  (readResult, bytesRead, m) = devRead (devices s1 device) (memory s1) data maxLength;
                  s2 = s1\<lparr>memory := m\<rparr>
              in case readResult of
                   ReadSuccess \<Rightarrow> Some (bytesRead, s2)
                 | ReadError \<Rightarrow> Some (- 1, s2)
                 | ReadErrorTimeout \<Rightarrow> Some (- 108, s2))))"

definition hidReadAsync :: "nsyshid \<Rightarrow> dev_ptr \<Rightarrow> nat \<Rightarrow> s32 \<Rightarrow> MPTR \<Rightarrow> MPTR \<Rightarrow> nsyshid option" where
  "hidReadAsync s device data maxLength callbackFuncMPTR callbackParamMPTR =
     (case hidReadInternalSync s device data maxLength of
        None \<Rightarrow> None
      | Some (returnCode, s1) \<Rightarrow>
          (let errorCode = (if returnCode <s 0 then returnCode else 0)
           in case m_hid_handle s1 device of
                None \<Rightarrow> None
              | Some h \<Rightarrow>
                  Some (DoHIDTransferCallback s1 callbackFuncMPTR callbackParamMPTR h errorCode data
                          (if 0 <s returnCode then returnCode else 0))))"

definition hidReadSync :: "nsyshid \<Rightarrow> dev_ptr \<Rightarrow> nat \<Rightarrow> s32 \<Rightarrow> (s32 \<times> nsyshid) option" where
  "hidReadSync s device data maxLength = hidReadInternalSync s device data maxLength"

definition export_HIDRead :: "nsyshid \<Rightarrow> u32 \<Rightarrow> nat \<Rightarrow> u32 \<Rightarrow> MPTR \<Rightarrow> MPTR \<Rightarrow> (s32 \<times> nsyshid) option" where
  "export_HIDRead s hidHandle data maxLength callbackFuncMPTR callbackParamMPTR =
     (case GetDeviceByHandle s hidHandle True of
        None \<Rightarrow> None
      | Some (None, s1) \<Rightarrow> Some (- 1, s1)
      | Some (Some device, s1) \<Rightarrow>
          if callbackFuncMPTR \<noteq> MPTR_NULL
          then Some (0, s1\<lparr>threads := threads s1 @
                 [ReadAsync device data maxLength callbackFuncMPTR callbackParamMPTR]\<rparr>)
          else hidReadSync s1 device data maxLength)"

definition hidWriteInternalSync :: "nsyshid \<Rightarrow> dev_ptr \<Rightarrow> nat \<Rightarrow> s32 \<Rightarrow> s32 \<times> nsyshid" where
  "hidWriteInternalSync s device data maxLength =
     (if \<not> isOpened (devices s device) then (- 1, s)
      else
        (let (writeResult, bytesWritten) = devWrite (devices s device) (memory s) data maxLength
         in case writeResult of
              WriteSuccess \<Rightarrow> (bytesWritten, s)
            | WriteError \<Rightarrow> (- 1, s)
            | WriteErrorTimeout \<Rightarrow> (- 108, s)))"

definition hidWriteAsync :: "nsyshid \<Rightarrow> dev_ptr \<Rightarrow> nat \<Rightarrow> s32 \<Rightarrow> MPTR \<Rightarrow> MPTR \<Rightarrow> nsyshid option" where
  "hidWriteAsync s device data maxLength callbackFuncMPTR callbackParamMPTR =
     (let (returnCode, s1) = hidWriteInternalSync s device data maxLength;
          errorCode = (if returnCode <s 0 then returnCode else 0)
      in case m_hid_handle s1 device of
           None \<Rightarrow> None
         | Some h \<Rightarrow>
             Some (DoHIDTransferCallback s1 callbackFuncMPTR callbackParamMPTR h errorCode data
                     (if 0 <s returnCode then returnCode else 0)))"



definition export_HIDDecodeError :: "nsyshid \<Rightarrow> u32 \<Rightarrow> nat \<Rightarrow> nat \<Rightarrow> s32 \<times> nsyshid" where
  "export_HIDDecodeError s errorCode ukn0 ukn1 =
     (let s1 = s\<lparr>memory := store_u32be (memory s) ukn0 0x3FF\<rparr>;
          s2 = s1\<lparr>memory := store_u32be (memory s1) ukn1 (- 0x7FFF)\<rparr>
      in (0, s2))"

text \<open>What a detached thread does with the work it was given.\<close>

fun run_task :: "nsyshid \<Rightarrow> task \<Rightarrow> nsyshid option" where
  "run_task s (GetDescriptorAsync d t i l out n f p) = hidGetDescriptorAsync s d t i l out n f p"
| "run_task s (SetIdleAsync d i r t f p) = hidSetIdleAsync s d i r t f p"
| "run_task s (SetProtocolAsync d i r f p) = hidSetProtocolAsync s d i r f p"
| "run_task s (SetReportAsync d t r a n f p) = hidSetReportAsync s d t r a n f p"
| "run_task s (ReadAsync d a n f p) = hidReadAsync s d a n f p"
| "run_task s (WriteAsync d a n f p) = hidWriteAsync s d a n f p"

section \<open>Runs of the registry\<close>

text \<open>
  The calls that change the registry, the pool and the client list, and what a sequence of
  them does to the state. \<open>None\<close> is the failed assertion of \<open>ReleaseHID\<close>.
\<close>

datatype call =
  CallAttachDevice dev_ptr
| CallDetachDevice dev_ptr
| CallHIDAddClient client_ptr MPTR
| CallHIDDelClient client_ptr

fun step :: "nsyshid \<Rightarrow> call \<Rightarrow> nsyshid option" where
  "step s (CallAttachDevice d) = Some (snd (AttachDevice s d))"
| "step s (CallDetachDevice d) = DetachDevice s d"
| "step s (CallHIDAddClient c f) = Some (snd (export_HIDAddClient s c f))"
| "step s (CallHIDDelClient c) = Some (snd (export_HIDDelClient s c))"

fun run :: "nsyshid \<Rightarrow> call list \<Rightarrow> nsyshid option" where
  "run s [] = Some s"
| "run s (c # cs) = (case step s c of None \<Rightarrow> None | Some s' \<Rightarrow> run s' cs)"

text \<open>
  The handles a run hands out, in order: after each \<open>AttachDevice\<close> that returns true,
  the \<open>handle\<close> field of the slot the device was bound to.
\<close>

fun dispensed :: "nsyshid \<Rightarrow> call list \<Rightarrow> u32 list" where
  "dispensed s [] = []"
| "dispensed s (CallAttachDevice d # cs) =
     (case AttachDevice s d of
        (True, s') \<Rightarrow> (case m_hid_handle s' d of None \<Rightarrow> [] | Some h \<Rightarrow> [h]) @ dispensed s' cs
      | (False, s') \<Rightarrow> dispensed s' cs)"
| "dispensed s (c # cs) = (case step s c of None \<Rightarrow> [] | Some s' \<Rightarrow> dispensed s' cs)"

text \<open>Attaching the devices of a list one after the other, with the value of every call.\<close>

fun attach_all :: "nsyshid \<Rightarrow> dev_ptr list \<Rightarrow> bool list \<times> nsyshid" where
  "attach_all s [] = ([], s)"
| "attach_all s (d # ds) =
     (let (ok, s1) = AttachDevice s d;
          (oks, s2) = attach_all s1 ds
      in (ok # oks, s2))"

text \<open>
  The slots \<open>GetFreeHID\<close> can hand out: the queue, which \<open>InitHIDPoolIndexQueue\<close>
  fills with all indices on first use.
\<close>

definition free_slots :: "nsyshid \<Rightarrow> nat list" where
  "free_slots s =
     (if HIDPoolIndexQueueInitialized s then HIDPoolIndexQueue s
      else HIDPoolIndexQueue s @ [0..<HID_MAX_NUM_DEVICES])"

text \<open>The state a successful \<open>AttachDevice\<close> leaves, written out field by field.\<close>

definition attached :: "nsyshid \<Rightarrow> dev_ptr \<Rightarrow> nat \<Rightarrow> nat list \<Rightarrow> nsyshid" where
  "attached s d i rest =
     s\<lparr>deviceList := deviceList s @ [d],
       lastGeneratedHidHandle := lastGeneratedHidHandle s + 1,
       HIDPool := (HIDPool s)(i := (HIDPool s i)
          \<lparr>handle := lastGeneratedHidHandle s + 1,
           ukn04 := 0x11223344,
           vendorId := m_vendorId (devices s d),
           productId := m_productId (devices s d),
           ifIndex := m_interfaceIndex (devices s d),
           subClass := m_interfaceSubClass (devices s d),
           protocol := m_protocol (devices s d),
           paddingGuessed0F := 0,
           maxPacketSizeRX := m_maxPacketSizeRX (devices s d),
           maxPacketSizeTX := m_maxPacketSizeTX (devices s d)\<rparr>),
       HIDPoolIndexQueue := rest,
       HIDPoolIndexQueueInitialized := True,
       devices := (devices s)(d := (devices s d)\<lparr>m_hid := Some i\<rparr>),
       asyncCallbacks := asyncCallbacks s @
          map (\<lambda>c. ClientCallback (callbackFunc s c) c (Some i) HID_CALLBACK_ATTACH) (HIDClientList s),
       trace := trace s @
          [(Suc (Suc (hidMutex s)), SlotAcquired i), (Suc (hidMutex s), RegistryPushBack d)] @
          map (\<lambda>c. (Suc (hidMutex s),
                     CallbackQueued (ClientCallback (callbackFunc s c) c (Some i) HID_CALLBACK_ATTACH)))
            (HIDClientList s)\<rparr>"

text \<open>The state \<open>DetachDevice\<close> leaves for a registered device bound to slot \<open>i\<close>.\<close>

definition detached :: "nsyshid \<Rightarrow> dev_ptr \<Rightarrow> nat \<Rightarrow> nsyshid" where
  "detached s d i =
     s\<lparr>deviceList := remove1 d (deviceList s),
       HIDPoolIndexQueue := free_slots s @ [i],
       HIDPoolIndexQueueInitialized := True,
       devices := (devices s)(d := (devices s d)\<lparr>isOpened := False\<rparr>),
       asyncCallbacks := asyncCallbacks s @
          map (\<lambda>c. ClientCallback (callbackFunc s c) c (Some i) HID_CALLBACK_DETACH) (HIDClientList s),
       trace := trace s @
          [(Suc (hidMutex s), RegistryErase d)] @
          map (\<lambda>c. (Suc (hidMutex s),
                     CallbackQueued (ClientCallback (callbackFunc s c) c (Some i) HID_CALLBACK_DETACH)))
            (HIDClientList s) @
          [(Suc (Suc (hidMutex s)), SlotReleased i), (hidMutex s, DeviceCloseCalled d)]\<rparr>"

text \<open>
  The slots of the registered devices, in registry order, and what every run from the
  initial state keeps true of them: together with the free slots they are the 128 slots of
  the pool, each exactly once.
\<close>

definition bound_slots :: "nsyshid \<Rightarrow> nat option list" where
  "bound_slots s = map (\<lambda>d. m_hid (devices s d)) (deviceList s)"

definition slots_partition :: "nsyshid \<Rightarrow> bool" where
  "slots_partition s \<longleftrightarrow>
     distinct (bound_slots s @ map Some (free_slots s)) \<and>
     set (bound_slots s @ map Some (free_slots s)) = Some ` {0..<HID_MAX_NUM_DEVICES}"

section \<open>A concrete system\<close>

definition blank_HID :: HID_t where
  "blank_HID =
     \<lparr>handle = 0, ukn04 = 0, vendorId = 0, productId = 0, ifIndex = 0, subClass = 0,
      protocol = 0, paddingGuessed0F = 0, maxPacketSizeRX = 0, maxPacketSizeTX = 0\<rparr>"

text \<open>
  A device as \<open>Device::Device\<close> constructs it (no slot, packet sizes 0x20), closed, whose
  descriptor is two bytes long, whose reads succeed with no data and whose writes accept
  ten bytes.
\<close>

definition pad :: Device where
  "pad =
     \<lparr>m_hid = None, m_vendorId = 0x057E, m_productId = 0x0337, m_interfaceIndex = 0,
      m_interfaceSubClass = 0, m_protocol = 0, m_maxPacketSizeRX = 0x20, m_maxPacketSizeTX = 0x20,
      isOpened = False, openSucceeds = True,
      devGetDescriptor = (\<lambda>descType descIndex lang n. (True, [0x12, 0x01])),
      devSetIdle = (\<lambda>ifIdx reportId duration. True),
      devSetProtocol = (\<lambda>ifIdx prot. True),
      devSetReport = (\<lambda>reportType reportId bs. True),
      devRead = (\<lambda>m p n. (ReadSuccess, 0, m)),
      devWrite = (\<lambda>m p n. (WriteSuccess, 10))\<rparr>"

definition boot :: nsyshid where
  "boot = initial (\<lambda>i. blank_HID) (\<lambda>d. pad) (\<lambda>c. 0) (\<lambda>a. 0)"

text \<open>The system after device 0 has been attached (it gets handle 2) and opened.\<close>

definition ready :: nsyshid where
  "ready = snd (Device_Open (snd (AttachDevice boot 0)) 0)"

text \<open>
  The system after client 7 has registered with callback 0x1000 and device 0 has been
  attached.
\<close>

definition subscribed :: nsyshid where
  "subscribed = snd (AttachDevice (snd (export_HIDAddClient boot 7 0x1000)) 0)"

text \<open>A guest memory in which every byte holds the marker 0xAA.\<close>

definition marked_memory :: mem where
  "marked_memory a = 0xAA"

section \<open>The pool and the registry, step by step\<close>

lemma unlock_lock: "unlock (lock s) = s"
  by (simp add: lock_def unlock_def)

lemma InitHIDPoolIndexQueue_eq:
  "InitHIDPoolIndexQueue s = s\<lparr>HIDPoolIndexQueueInitialized := True, HIDPoolIndexQueue := free_slots s\<rparr>"
  by (cases s) (simp add: InitHIDPoolIndexQueue_def free_slots_def lock_def unlock_def Let_def)

lemma GetFreeHID_eq:
  "GetFreeHID s =
     (case free_slots s of
        [] \<Rightarrow> (None, s)
      | i # rest \<Rightarrow>
          (Some i, s\<lparr>HIDPoolIndexQueueInitialized := True, HIDPoolIndexQueue := rest,
                     trace := trace s @ [(Suc (hidMutex s), SlotAcquired i)]\<rparr>))"
  by (cases s)
     (auto simp add: GetFreeHID_def InitHIDPoolIndexQueue_eq free_slots_def lock_def unlock_def
        emit_def Let_def HID_MAX_NUM_DEVICES_def split: list.splits)

lemma GenerateHIDHandle_eq:
  "GenerateHIDHandle s = (lastGeneratedHidHandle s + 1, s\<lparr>lastGeneratedHidHandle := lastGeneratedHidHandle s + 1\<rparr>)"
  by (simp add: GenerateHIDHandle_def lock_def unlock_def Let_def)

lemma ReleaseHID_eq:
  "ReleaseHID s (Some i) =
     Some (s\<lparr>HIDPoolIndexQueueInitialized := True, HIDPoolIndexQueue := free_slots s @ [i],
             trace := trace s @ [(Suc (hidMutex s), SlotReleased i)]\<rparr>)"
  by (cases s)
     (simp add: ReleaseHID_def InitHIDPoolIndexQueue_eq free_slots_def lock_def unlock_def
        emit_def Let_def)


lemma foldl_DoAttachCallbackAsync:
  "foldl (\<lambda>st client. DoAttachCallbackAsync st client d) s cs =
     s\<lparr>asyncCallbacks := asyncCallbacks s @
          map (\<lambda>c. ClientCallback (callbackFunc s c) c (m_hid (devices s d)) HID_CALLBACK_ATTACH) cs,
       trace := trace s @
          map (\<lambda>c. (hidMutex s,
                     CallbackQueued (ClientCallback (callbackFunc s c) c (m_hid (devices s d)) HID_CALLBACK_ATTACH))) cs\<rparr>"
  by (induction cs arbitrary: s)
     (simp_all add: DoAttachCallbackAsync_def coreinitAsyncCallback_add_def emit_def)

lemma foldl_DoDetachCallbackAsync:
  "foldl (\<lambda>st client. DoDetachCallbackAsync st client d) s cs =
     s\<lparr>asyncCallbacks := asyncCallbacks s @
          map (\<lambda>c. ClientCallback (callbackFunc s c) c (m_hid (devices s d)) HID_CALLBACK_DETACH) cs,
       trace := trace s @
          map (\<lambda>c. (hidMutex s,
                     CallbackQueued (ClientCallback (callbackFunc s c) c (m_hid (devices s d)) HID_CALLBACK_DETACH))) cs\<rparr>"
  by (induction cs arbitrary: s)
     (simp_all add: DoDetachCallbackAsync_def coreinitAsyncCallback_add_def emit_def)

lemma AttachDevice_eq:
  "AttachDevice s d =
     (if d \<in> set (deviceList s) then (False, s)
      else case free_slots s of
             [] \<Rightarrow> (False, s)
           | i # rest \<Rightarrow> (True, attached s d i rest))"
  by (cases s)
     (simp add: AttachDevice_def GetFreeHID_eq GenerateHIDHandle_eq AssignHID_def
        foldl_DoAttachCallbackAsync attached_def Let_def lock_def unlock_def emit_def free_slots_def
        split: list.splits)

lemma DetachDevice_eq:
  "DetachDevice s d =
     (if d \<notin> set (deviceList s) then Some s
      else case m_hid (devices s d) of
             None \<Rightarrow> None
           | Some i \<Rightarrow> Some (detached s d i))"
  by (cases s)
     (simp add: DetachDevice_def DetachDevice_locked_def ReleaseHID_def InitHIDPoolIndexQueue_eq
        foldl_DoDetachCallbackAsync detached_def Device_Close_def Let_def lock_def unlock_def
        emit_def free_slots_def
        split: option.splits)


lemma foldl_DoAttachCallback:
  "foldl (\<lambda>st device. DoAttachCallback st c device) s ds =
     s\<lparr>coreCallbacks := coreCallbacks s @
          map (\<lambda>d. ClientCallback (callbackFunc s c) c (m_hid (devices s d)) HID_CALLBACK_ATTACH) ds,
       trace := trace s @
          map (\<lambda>d. (hidMutex s,
                     CallbackRun (ClientCallback (callbackFunc s c) c (m_hid (devices s d)) HID_CALLBACK_ATTACH))) ds\<rparr>"
  by (induction ds arbitrary: s)
     (simp_all add: DoAttachCallback_def PPCCoreCallback_def emit_def)

lemma foldl_DoDetachCallback:
  "foldl (\<lambda>st device. DoDetachCallback st c device) s ds =
     s\<lparr>coreCallbacks := coreCallbacks s @
          map (\<lambda>d. ClientCallback (callbackFunc s c) c (m_hid (devices s d)) HID_CALLBACK_DETACH) ds,
       trace := trace s @
          map (\<lambda>d. (hidMutex s,
                     CallbackRun (ClientCallback (callbackFunc s c) c (m_hid (devices s d)) HID_CALLBACK_DETACH))) ds\<rparr>"
  by (induction ds arbitrary: s)
     (simp_all add: DoDetachCallback_def PPCCoreCallback_def emit_def)

lemma export_HIDAddClient_eq:
  "export_HIDAddClient s c f =
     (0, s\<lparr>HIDClientList := c # HIDClientList s,
           callbackFunc := (callbackFunc s)(c := f),
           coreCallbacks := coreCallbacks s @
             map (\<lambda>d. ClientCallback f c (m_hid (devices s d)) HID_CALLBACK_ATTACH) (deviceList s),
           trace := trace s @
             map (\<lambda>d. (Suc (hidMutex s),
                        CallbackRun (ClientCallback f c (m_hid (devices s d)) HID_CALLBACK_ATTACH)))
               (deviceList s)\<rparr>)"
  by (cases s)
     (simp add: export_HIDAddClient_def AttachClientToList_def foldl_DoAttachCallback
        lock_def unlock_def Let_def)

lemma export_HIDDelClient_eq:
  "export_HIDDelClient s c =
     (0, s\<lparr>HIDClientList := removeAll c (HIDClientList s),
           coreCallbacks := coreCallbacks s @
             map (\<lambda>d. ClientCallback (callbackFunc s c) c (m_hid (devices s d)) HID_CALLBACK_DETACH)
               (deviceList s),
           trace := trace s @
             map (\<lambda>d. (Suc (hidMutex s),
                        CallbackRun (ClientCallback (callbackFunc s c) c (m_hid (devices s d))
                          HID_CALLBACK_DETACH)))
               (deviceList s)\<rparr>)"
  by (cases s)
     (simp add: export_HIDDelClient_def DetachClientFromList_def foldl_DoDetachCallback
        lock_def unlock_def Let_def)

section \<open>Capacity and failed attaches\<close>

lemma free_slots_attached: "free_slots (attached s d i rest) = rest"
  by (simp add: free_slots_def attached_def)

lemma deviceList_attached: "deviceList (attached s d i rest) = deviceList s @ [d]"
  by (simp add: attached_def)

lemma slots_partition_initial: "slots_partition (initial pool devs cbs m)"
  by (simp add: slots_partition_def bound_slots_def free_slots_def initial_def distinct_map)

lemma slots_partition_registered:
  assumes "slots_partition s" "d \<in> set (deviceList s)"
  shows "\<exists>i. m_hid (devices s d) = Some i"
proof -
  from assms(2) have "m_hid (devices s d) \<in> set (bound_slots s @ map Some (free_slots s))"
    by (simp add: bound_slots_def)
  with assms(1) have "m_hid (devices s d) \<in> Some ` {0..<HID_MAX_NUM_DEVICES}"
    by (simp only: slots_partition_def)
  then show ?thesis by auto
qed

lemma bound_slots_attached:
  "d \<notin> set (deviceList s) \<Longrightarrow> bound_slots (attached s d i rest) = bound_slots s @ [Some i]"
  by (simp add: bound_slots_def attached_def)

lemma slots_partition_attached:
  assumes "slots_partition s" "d \<notin> set (deviceList s)" "free_slots s = i # rest"
  shows "slots_partition (attached s d i rest)"
  using assms
  by (auto simp add: slots_partition_def bound_slots_attached free_slots_attached)

lemma bound_slots_detached:
  assumes "distinct (deviceList s)"
  shows "bound_slots (detached s d i) = map (\<lambda>x. m_hid (devices s x)) (remove1 d (deviceList s))"
proof -
  from assms have "d \<notin> set (remove1 d (deviceList s))" by simp
  then show ?thesis
    by (simp add: bound_slots_def detached_def)
qed

lemma free_slots_detached: "free_slots (detached s d i) = free_slots s @ [i]"
  by (simp add: free_slots_def detached_def)

lemma slots_partition_detached:
  assumes "slots_partition s" "d \<in> set (deviceList s)" "m_hid (devices s d) = Some i"
  shows "slots_partition (detached s d i)"
proof -
  let ?f = "\<lambda>x. m_hid (devices s x)"
  from assms(1) have dm: "distinct (map ?f (deviceList s))"
    and df: "distinct (free_slots s)"
    and disj: "set (map ?f (deviceList s)) \<inter> Some ` set (free_slots s) = {}"
    and all: "set (map ?f (deviceList s)) \<union> Some ` set (free_slots s) = Some ` {0..<HID_MAX_NUM_DEVICES}"
    by (auto simp add: slots_partition_def bound_slots_def distinct_map)
  from dm have dd: "distinct (deviceList s)" and inj: "inj_on ?f (set (deviceList s))"
    by (simp_all add: distinct_map)
  have rem: "set (map ?f (remove1 d (deviceList s))) = set (map ?f (deviceList s)) - {Some i}"
    using dd inj assms(2,3) by (auto simp add: inj_on_def)
  have dm': "distinct (map ?f (remove1 d (deviceList s)))"
    using dd inj by (auto simp add: distinct_map inj_on_def)
  have i_bound: "Some i \<in> set (map ?f (deviceList s))"
    using assms(2,3) by force
  with disj have i_free: "i \<notin> set (free_slots s)" by auto
  have "distinct (map ?f (remove1 d (deviceList s)) @ map Some (free_slots s @ [i]))"
    using dm' df i_free disj rem by (auto simp add: distinct_map)
  moreover have "set (map ?f (remove1 d (deviceList s)) @ map Some (free_slots s @ [i])) =
      Some ` {0..<HID_MAX_NUM_DEVICES}"
  proof -
    have "set (map ?f (remove1 d (deviceList s)) @ map Some (free_slots s @ [i])) =
        set (map ?f (remove1 d (deviceList s))) \<union> (Some ` set (free_slots s) \<union> {Some i})"
      by auto
    also have "\<dots> = (set (map ?f (deviceList s)) - {Some i}) \<union> (Some ` set (free_slots s) \<union> {Some i})"
      by (simp only: rem)
    also have "\<dots> = set (map ?f (deviceList s)) \<union> Some ` set (free_slots s)"
      using i_bound by blast
    finally show ?thesis by (simp only: all)
  qed
  ultimately show ?thesis
    by (simp only: slots_partition_def bound_slots_detached [OF dd] free_slots_detached)
qed

lemma bound_slots_clients:
  "bound_slots (snd (export_HIDAddClient s c f)) = bound_slots s"
  "free_slots (snd (export_HIDAddClient s c f)) = free_slots s"
  "bound_slots (snd (export_HIDDelClient s c)) = bound_slots s"
  "free_slots (snd (export_HIDDelClient s c)) = free_slots s"
  by (simp_all add: bound_slots_def free_slots_def export_HIDAddClient_eq export_HIDDelClient_eq)

lemma step_slots_partition:
  assumes "slots_partition s"
  shows "\<exists>s'. step s c = Some s' \<and> slots_partition s'"
proof (cases c)
  case (CallAttachDevice d)
  then show ?thesis using assms
    by (auto simp add: AttachDevice_eq slots_partition_attached split: list.splits)
next
  case (CallDetachDevice d)
  show ?thesis
  proof (cases "d \<in> set (deviceList s)")
    case True
    with assms obtain i where "m_hid (devices s d) = Some i"
      using slots_partition_registered by blast
    with True assms CallDetachDevice show ?thesis
      by (simp add: DetachDevice_eq slots_partition_detached)
  next
    case False
    with assms CallDetachDevice show ?thesis by (simp add: DetachDevice_eq)
  qed
next
  case (CallHIDAddClient cl f)
  then show ?thesis using assms
    by (simp add: slots_partition_def bound_slots_clients)
next
  case (CallHIDDelClient cl)
  then show ?thesis using assms
    by (simp add: slots_partition_def bound_slots_clients)
qed

lemma run_slots_partition:
  "slots_partition s \<Longrightarrow> \<exists>s'. run s cs = Some s' \<and> slots_partition s'"
proof (induction cs arbitrary: s)
  case Nil
  then show ?case by simp
next
  case (Cons c cs)
  from step_slots_partition [OF Cons.prems, of c] obtain s1 where s1: "step s c = Some s1" "slots_partition s1"
    by blast
  from Cons.IH [OF s1(2)] s1(1) show ?case by simp
qed

lemma slots_partition_count:
  assumes "slots_partition s"
  shows "length (deviceList s) + length (free_slots s) = HID_MAX_NUM_DEVICES"
proof -
  let ?xs = "bound_slots s @ map Some (free_slots s)"
  from assms have "distinct ?xs" "set ?xs = Some ` {0..<HID_MAX_NUM_DEVICES}"
    by (simp_all only: slots_partition_def)
  then have "length ?xs = card (Some ` {0..<HID_MAX_NUM_DEVICES})"
    by (metis distinct_card)
  also have "\<dots> = HID_MAX_NUM_DEVICES"
    by (simp add: card_image)
  finally show ?thesis
    by (simp add: bound_slots_def)
qed

lemma attach_all_fresh:
  assumes "slots_partition s" "distinct ds" "set ds \<inter> set (deviceList s) = {}"
    "length ds \<le> length (free_slots s)"
  shows "\<exists>s'. attach_all s ds = (replicate (length ds) True, s') \<and>
           deviceList s' = deviceList s @ ds \<and>
           free_slots s' = drop (length ds) (free_slots s) \<and> slots_partition s'"
  using assms
proof (induction ds arbitrary: s)
  case Nil
  then show ?case by simp
next
  case (Cons d ds)
  from Cons.prems(4) obtain i rest where fs: "free_slots s = i # rest"
    by (cases "free_slots s") auto
  let ?s1 = "attached s d i rest"
  from Cons.prems have d: "d \<notin> set (deviceList s)" by auto
  with fs have att: "AttachDevice s d = (True, ?s1)"
    by (simp add: AttachDevice_eq)
  have inv1: "slots_partition ?s1"
    using Cons.prems(1) d fs by (rule slots_partition_attached)
  have dis: "distinct ds" "set ds \<inter> set (deviceList ?s1) = {}"
    using Cons.prems(2,3) by (auto simp add: deviceList_attached)
  have len: "length ds \<le> length (free_slots ?s1)"
    using Cons.prems(4) fs by (simp add: free_slots_attached)
  from Cons.IH [OF inv1 dis len] obtain s' where s':
    "attach_all ?s1 ds = (replicate (length ds) True, s')"
    "deviceList s' = deviceList ?s1 @ ds"
    "free_slots s' = drop (length ds) (free_slots ?s1)" "slots_partition s'"
    by blast
  with att fs show ?case
    by (simp add: deviceList_attached free_slots_attached)
qed

text \<open>
  C3. Whatever attach, detach and client calls run from the initial state, the run does not
  stop in the assertion, the registry never holds more than 128 devices, and the slots of
  the registered devices are pairwise different, none of them free, so that registry size
  and free slots add up to 128; attaching 128 distinct devices succeeds 128 times, after
  which any further attach returns false and leaves the state, with its 128 registry
  entries, as it is.
\<close>

theorem registry_never_exceeds_128:
  "(\<exists>s. run (initial pool devs cbs m) cs = Some s \<and> length (deviceList s) \<le> 128 \<and>
        length (deviceList s) + length (free_slots s) = 128 \<and>
        distinct (bound_slots s @ map Some (free_slots s)) \<and>
        set (bound_slots s @ map Some (free_slots s)) = Some ` {0..<128}) \<and>
   (distinct ds \<and> length ds = 128 \<longrightarrow>
      (\<exists>s. attach_all (initial pool devs cbs m) ds = (replicate 128 True, s) \<and>
           length (deviceList s) = 128 \<and>
           AttachDevice s d = (False, s)))"
proof
  from run_slots_partition [OF slots_partition_initial, of pool devs cbs m cs]
  obtain s where s: "run (initial pool devs cbs m) cs = Some s" "slots_partition s" by blast
  from s(2) have "length (deviceList s) + length (free_slots s) = 128"
    "distinct (bound_slots s @ map Some (free_slots s))"
    "set (bound_slots s @ map Some (free_slots s)) = Some ` {0..<128}"
    using slots_partition_count [of s]
    by (simp_all add: slots_partition_def HID_MAX_NUM_DEVICES_def)
  with s(1)
  show "\<exists>s. run (initial pool devs cbs m) cs = Some s \<and> length (deviceList s) \<le> 128 \<and>
        length (deviceList s) + length (free_slots s) = 128 \<and>
        distinct (bound_slots s @ map Some (free_slots s)) \<and>
        set (bound_slots s @ map Some (free_slots s)) = Some ` {0..<128}"
    by auto
next
  let ?s0 = "initial pool devs cbs m"
  show "distinct ds \<and> length ds = 128 \<longrightarrow>
      (\<exists>s. attach_all ?s0 ds = (replicate 128 True, s) \<and> length (deviceList s) = 128 \<and>
           AttachDevice s d = (False, s))"
  proof
    assume a: "distinct ds \<and> length ds = 128"
    have fs0: "free_slots ?s0 = [0..<128]" and dl0: "deviceList ?s0 = []"
      by (simp_all add: free_slots_def initial_def HID_MAX_NUM_DEVICES_def)
    from a fs0 dl0 have "\<exists>s'. attach_all ?s0 ds = (replicate (length ds) True, s') \<and>
           deviceList s' = deviceList ?s0 @ ds \<and>
           free_slots s' = drop (length ds) (free_slots ?s0) \<and> slots_partition s'"
      by (intro attach_all_fresh slots_partition_initial) simp_all
    then obtain s where s: "attach_all ?s0 ds = (replicate (length ds) True, s)"
      "deviceList s = deviceList ?s0 @ ds" "free_slots s = drop (length ds) (free_slots ?s0)"
      by blast
    from s(3) a fs0 have "free_slots s = []" by simp
    then have "AttachDevice s d = (False, s)" by (simp add: AttachDevice_eq)
    with s a dl0 show "\<exists>s. attach_all ?s0 ds = (replicate 128 True, s) \<and>
        length (deviceList s) = 128 \<and> AttachDevice s d = (False, s)"
      by auto
  qed
qed

theorem registry_never_exceeds_128_witness:
  "distinct [0..<128::nat] \<and> length [0..<128::nat] = 128 \<and>
   fst (attach_all boot [0..<128]) = replicate 128 True \<and>
   length (deviceList (snd (attach_all boot [0..<128]))) = 128 \<and>
   AttachDevice (snd (attach_all boot [0..<128])) 128 = (False, snd (attach_all boot [0..<128]))"
  using registry_never_exceeds_128 [of "\<lambda>i. blank_HID" "\<lambda>d. pad" "\<lambda>c. 0" "\<lambda>a. 0" "[]" "[0..<128]" 128]
  by (auto simp add: boot_def)

text \<open>
  C4. \<open>AttachDevice\<close> returns false exactly when the device is already in the registry or
  no slot is free, and then the whole state (registry, free queue, handle counter, pool,
  devices, callbacks, lock) is the one before the call; a second attach of the same device
  right after the first returns false and changes nothing.
\<close>

theorem attach_fails_without_effect:
  "(\<not> fst (AttachDevice s d) \<longleftrightarrow> d \<in> set (deviceList s) \<or> free_slots s = []) \<and>
   (\<not> fst (AttachDevice s d) \<longrightarrow> snd (AttachDevice s d) = s) \<and>
   AttachDevice (snd (AttachDevice s d)) d = (False, snd (AttachDevice s d))"
  by (simp add: AttachDevice_eq deviceList_attached split: list.splits)

theorem attach_fails_without_effect_witness:
  "\<not> fst (AttachDevice (snd (AttachDevice boot 0)) 0) \<and>
   snd (AttachDevice (snd (AttachDevice boot 0)) 0) = snd (AttachDevice boot 0) \<and>
   0 \<in> set (deviceList (snd (AttachDevice boot 0)))"
  using attach_fails_without_effect [of "snd (AttachDevice boot 0)" 0]
    attach_fails_without_effect [of boot 0]
  by (simp add: AttachDevice_eq deviceList_attached free_slots_def boot_def initial_def
      HID_MAX_NUM_DEVICES_def upt_rec [of 0])

section \<open>Detaching, and registering clients\<close>

lemma boot_fields:
  "deviceList boot = []" "HIDClientList boot = []" "free_slots boot = [0..<128]"
  "asyncCallbacks boot = []" "coreCallbacks boot = []" "lastGeneratedHidHandle boot = 1"
  "hidMutex boot = 0" "threads boot = []" "trace boot = []"
  by (simp_all add: boot_def initial_def free_slots_def HID_MAX_NUM_DEVICES_def)

lemma boot_objects:
  "devices boot = (\<lambda>d. pad)" "HIDPool boot = (\<lambda>i. blank_HID)" "memory boot = (\<lambda>a. 0)"
  "callbackFunc boot = (\<lambda>c. 0)"
  by (simp_all add: boot_def initial_def)

lemma subscribed_fields:
  "deviceList subscribed = [0]" "HIDClientList subscribed = [7]"
  "m_hid (devices subscribed 0) = Some 0" "callbackFunc subscribed 7 = 0x1000"
  "hidMutex subscribed = 0" "free_slots subscribed = [1..<128]"
  "asyncCallbacks subscribed = [ClientCallback 0x1000 7 (Some 0) HID_CALLBACK_ATTACH]"
  "coreCallbacks subscribed = []"
  "trace subscribed =
     [(2, SlotAcquired 0), (1, RegistryPushBack 0),
      (1, CallbackQueued (ClientCallback 0x1000 7 (Some 0) HID_CALLBACK_ATTACH))]"
  by (simp_all add: subscribed_def export_HIDAddClient_eq AttachDevice_eq attached_def
      free_slots_def boot_def initial_def HID_MAX_NUM_DEVICES_def upt_rec [of 0] numeral_2_eq_2)

text \<open>
  C5 as written fails: the detach notifications of \<open>DetachDevice\<close> are queued with
  \<open>coreinitAsyncCallback_add\<close>, none is run inline. With one client registered and one
  device attached, detaching it runs no guest callback and leaves the detach callback in
  the queue, behind the attach callback.
\<close>

theorem detach_notifies_synchronously_counterexample:
  "map_option coreCallbacks
     (run boot [CallHIDAddClient 7 0x1000, CallAttachDevice 0, CallDetachDevice 0]) = Some [] \<and>
   map_option asyncCallbacks
     (run boot [CallHIDAddClient 7 0x1000, CallAttachDevice 0, CallDetachDevice 0]) =
     Some [ClientCallback 0x1000 7 (Some 0) HID_CALLBACK_ATTACH,
           ClientCallback 0x1000 7 (Some 0) HID_CALLBACK_DETACH]"
  by (simp add: export_HIDAddClient_eq AttachDevice_eq DetachDevice_eq attached_def detached_def
      free_slots_def boot_def initial_def HID_MAX_NUM_DEVICES_def upt_rec [of 0])

text \<open>
  C5, amended. For a registered device bound to slot \<open>i\<close>, \<open>DetachDevice\<close> returns, and
  what it did is, in this order and nothing else: the removal of the device from the
  registry and one queued (asynchronous) detach callback per registered client, in
  client-list order, both under the lock the function takes; the release of the slot, one
  level deeper, under the lock \<open>ReleaseHID\<close> takes again; and the call of \<open>Close\<close>, with
  the lock back at the depth it had when \<open>DetachDevice\<close> was entered, that is not held when
  the caller did not hold it. No callback is run inline. Afterwards the device is out of the
  registry, its slot is the last of the free queue and the device is closed. For a device
  that is not registered the state stays as it is.
\<close>

theorem detach_steps_in_order:
  "(d \<in> set (deviceList s) \<and> m_hid (devices s d) = Some i \<longrightarrow>
      (\<exists>s'. DetachDevice s d = Some s' \<and>
         trace s' = trace s @
           [(Suc (hidMutex s), RegistryErase d)] @
           map (\<lambda>c. (Suc (hidMutex s),
                      CallbackQueued (ClientCallback (callbackFunc s c) c (Some i) HID_CALLBACK_DETACH)))
             (HIDClientList s) @
           [(Suc (Suc (hidMutex s)), SlotReleased i), (hidMutex s, DeviceCloseCalled d)] \<and>
         deviceList s' = remove1 d (deviceList s) \<and>
         asyncCallbacks s' = asyncCallbacks s @
           map (\<lambda>c. ClientCallback (callbackFunc s c) c (Some i) HID_CALLBACK_DETACH) (HIDClientList s) \<and>
         coreCallbacks s' = coreCallbacks s \<and>
         HIDPoolIndexQueue s' = free_slots s @ [i] \<and>
         \<not> isOpened (devices s' d) \<and>
         hidMutex s' = hidMutex s)) \<and>
   (d \<notin> set (deviceList s) \<longrightarrow> DetachDevice s d = Some s)"
  by (simp add: DetachDevice_eq detached_def)

theorem detach_steps_in_order_witness:
  "0 \<in> set (deviceList subscribed) \<and> m_hid (devices subscribed 0) = Some 0 \<and>
   HIDClientList subscribed = [7] \<and> hidMutex subscribed = 0 \<and>
   map_option trace (DetachDevice subscribed 0) =
     Some [(2, SlotAcquired 0), (1, RegistryPushBack 0),
           (1, CallbackQueued (ClientCallback 0x1000 7 (Some 0) HID_CALLBACK_ATTACH)),
           (1, RegistryErase 0),
           (1, CallbackQueued (ClientCallback 0x1000 7 (Some 0) HID_CALLBACK_DETACH)),
           (2, SlotReleased 0), (0, DeviceCloseCalled 0)] \<and>
   map_option deviceList (DetachDevice subscribed 0) = Some [] \<and>
   0 \<notin> set (deviceList boot) \<and> DetachDevice boot 0 = Some boot"
  using detach_steps_in_order [of 0 subscribed 0] detach_steps_in_order [of 0 boot 0]
  by (auto simp add: subscribed_fields boot_fields numeral_2_eq_2)

text \<open>
  C8. \<open>HIDAddClient\<close> runs, before it returns, one attach callback of the new client per
  registered device, in registry order, and queues nothing; \<open>HIDDelClient\<close> runs one detach
  callback per registered device in the same way. Both return 0.
\<close>

theorem client_registration_catches_up:
  "coreCallbacks (snd (export_HIDAddClient s c f)) =
     coreCallbacks s @
       map (\<lambda>d. ClientCallback f c (m_hid (devices s d)) HID_CALLBACK_ATTACH) (deviceList s) \<and>
   length (coreCallbacks (snd (export_HIDAddClient s c f))) =
     length (coreCallbacks s) + length (deviceList s) \<and>
   asyncCallbacks (snd (export_HIDAddClient s c f)) = asyncCallbacks s \<and>
   threads (snd (export_HIDAddClient s c f)) = threads s \<and>
   deviceList (snd (export_HIDAddClient s c f)) = deviceList s \<and>
   HIDClientList (snd (export_HIDAddClient s c f)) = c # HIDClientList s \<and>
   fst (export_HIDAddClient s c f) = 0 \<and>
   coreCallbacks (snd (export_HIDDelClient s c)) =
     coreCallbacks s @
       map (\<lambda>d. ClientCallback (callbackFunc s c) c (m_hid (devices s d)) HID_CALLBACK_DETACH)
         (deviceList s) \<and>
   length (coreCallbacks (snd (export_HIDDelClient s c))) =
     length (coreCallbacks s) + length (deviceList s) \<and>
   asyncCallbacks (snd (export_HIDDelClient s c)) = asyncCallbacks s \<and>
   threads (snd (export_HIDDelClient s c)) = threads s \<and>
   deviceList (snd (export_HIDDelClient s c)) = deviceList s \<and>
   HIDClientList (snd (export_HIDDelClient s c)) = removeAll c (HIDClientList s) \<and>
   fst (export_HIDDelClient s c) = 0"
  by (simp add: export_HIDAddClient_eq export_HIDDelClient_eq)

section \<open>The handles handed out\<close>

lemma m_hid_handle_attached:
  "m_hid_handle (attached s d i rest) d = Some (lastGeneratedHidHandle s + 1)"
  by (simp add: m_hid_handle_def attached_def)

lemma lastGeneratedHidHandle_attached:
  "lastGeneratedHidHandle (attached s d i rest) = lastGeneratedHidHandle s + 1"
  by (simp add: attached_def)

lemma lastGeneratedHidHandle_step:
  "step s c = Some s' \<Longrightarrow>
   lastGeneratedHidHandle s' =
     (case c of CallAttachDevice d \<Rightarrow>
        if fst (AttachDevice s d) then lastGeneratedHidHandle s + 1 else lastGeneratedHidHandle s
      | _ \<Rightarrow> lastGeneratedHidHandle s)"
  by (cases c)
     (auto simp add: AttachDevice_eq DetachDevice_eq export_HIDAddClient_eq export_HIDDelClient_eq
        attached_def detached_def split: list.splits option.splits if_splits)

lemma dispensed_counts_up:
  "dispensed s cs =
     map (\<lambda>k. lastGeneratedHidHandle s + of_nat (Suc k)) [0..<length (dispensed s cs)]"
proof (induction cs arbitrary: s)
  case Nil
  show ?case by simp
next
  case (Cons c cs)
  show ?case
  proof (cases c)
    case (CallAttachDevice d)
    show ?thesis
    proof (cases "fst (AttachDevice s d)")
      case True
      then obtain i rest where att: "AttachDevice s d = (True, attached s d i rest)"
        by (auto simp add: AttachDevice_eq split: list.splits if_splits)
      let ?s1 = "attached s d i rest"
      let ?n = "length (dispensed ?s1 cs)"
      have eq: "dispensed s (c # cs) = (lastGeneratedHidHandle s + 1) # dispensed ?s1 cs"
        using att CallAttachDevice by (simp add: m_hid_handle_attached)
      have "dispensed ?s1 cs = map (\<lambda>k. lastGeneratedHidHandle ?s1 + of_nat (Suc k)) [0..<?n]"
        by (rule Cons.IH)
      moreover have "\<And>k. lastGeneratedHidHandle ?s1 + of_nat (Suc k) =
          lastGeneratedHidHandle s + of_nat (Suc (Suc k))"
        by (simp add: lastGeneratedHidHandle_attached)
      ultimately have "dispensed ?s1 cs = map (\<lambda>k. lastGeneratedHidHandle s + of_nat (Suc (Suc k))) [0..<?n]"
        by (simp only:)
      then have "(lastGeneratedHidHandle s + 1) # dispensed ?s1 cs =
          map (\<lambda>k. lastGeneratedHidHandle s + of_nat (Suc k)) [0..<Suc ?n]"
        by (simp only: map_upt_Suc) simp
      with eq show ?thesis by simp
    next
      case False
      then have "AttachDevice s d = (False, s)"
        by (auto simp add: AttachDevice_eq split: list.splits if_splits)
      with CallAttachDevice Cons.IH [of s] show ?thesis by simp
    qed
  next
    case (CallDetachDevice d)
    show ?thesis
    proof (cases "step s c")
      case None
      with CallDetachDevice show ?thesis by simp
    next
      case (Some s1)
      with CallDetachDevice have "lastGeneratedHidHandle s1 = lastGeneratedHidHandle s"
        by (simp add: lastGeneratedHidHandle_step [OF Some])
      with Some CallDetachDevice Cons.IH [of s1] show ?thesis by simp
    qed
  next
    case (CallHIDAddClient cl f)
    then show ?thesis using Cons.IH [of "snd (export_HIDAddClient s cl f)"]
      by (simp add: export_HIDAddClient_eq)
  next
    case (CallHIDDelClient cl)
    then show ?thesis using Cons.IH [of "snd (export_HIDDelClient s cl)"]
      by (simp add: export_HIDDelClient_eq)
  qed
qed

lemma unat_counts_up:
  assumes "unat (w :: u32) + Suc k < 2 ^ 32"
  shows "unat (w + of_nat (Suc k)) = unat w + Suc k"
proof -
  from assms have "Suc k < 2 ^ 32" by arith
  then have k: "unat (of_nat (Suc k) :: u32) = Suc k"
    by (simp only: unat_of_nat) simp
  with assms have "unat w + unat (of_nat (Suc k) :: u32) < 2 ^ LENGTH(32)"
    by simp
  then have "unat (w + of_nat (Suc k)) = unat w + unat (of_nat (Suc k) :: u32)"
    by (simp only: unat_add_lem)
  with k show ?thesis by (simp only:)
qed

lemma dispensed_attach_detach:
  assumes "d \<notin> set (deviceList s)" "free_slots s \<noteq> []"
  shows "length (dispensed s (concat (replicate n [CallAttachDevice d, CallDetachDevice d]))) = n"
  using assms
proof (induction n arbitrary: s)
  case 0
  show ?case by simp
next
  case (Suc n)
  from Suc.prems(2) obtain i rest where fs: "free_slots s = i # rest"
    by (cases "free_slots s") auto
  let ?s1 = "attached s d i rest"
  let ?s2 = "detached ?s1 d i"
  from fs Suc.prems(1) have att: "AttachDevice s d = (True, ?s1)"
    by (simp add: AttachDevice_eq)
  have det: "DetachDevice ?s1 d = Some ?s2"
    by (simp add: DetachDevice_eq attached_def)
  have "d \<notin> set (deviceList ?s2)" "free_slots ?s2 \<noteq> []"
    using Suc.prems(1) by (simp_all add: detached_def attached_def free_slots_def remove1_append)
  then have "length (dispensed ?s2 (concat (replicate n [CallAttachDevice d, CallDetachDevice d]))) = n"
    by (rule Suc.IH)
  with att det show ?case
    by (simp add: m_hid_handle_attached)
qed

text \<open>
  C2 as written fails: the counter is a \<open>uint32\<close> and wraps. Attaching and detaching one
  device 4294967295 times from the initial state hands out, after 0xFFFFFFFF, the handle 0:
  smaller than the one before it and smaller than 2.
\<close>

theorem handles_strictly_increasing_counterexample:
  "dispensed boot (concat (replicate 4294967295 [CallAttachDevice 0, CallDetachDevice 0])) ! 4294967293 = 0xFFFFFFFF \<and>
   dispensed boot (concat (replicate 4294967295 [CallAttachDevice 0, CallDetachDevice 0])) ! 4294967294 = 0"
proof -
  let ?cs = "concat (replicate 4294967295 [CallAttachDevice 0, CallDetachDevice 0])"
  have len: "length (dispensed boot ?cs) = 4294967295"
    by (rule dispensed_attach_detach)
       (simp_all add: boot_def initial_def free_slots_def HID_MAX_NUM_DEVICES_def)
  have "dispensed boot ?cs =
      map (\<lambda>k. lastGeneratedHidHandle boot + of_nat (Suc k)) [0..<length (dispensed boot ?cs)]"
    by (rule dispensed_counts_up)
  with len have eq: "dispensed boot ?cs = map (\<lambda>k. 1 + of_nat (Suc k)) [0..<4294967295]"
    by (simp add: boot_def initial_def)
  show ?thesis
    by (simp only: eq) simp
qed


text \<open>
  C2, amended. From the initial state, as long as no more than 4294967294 handles have been
  handed out, the handles are 2, 3, 4, ... in this order, whatever is attached, detached
  and reattached in between: strictly increasing, never repeated, the first one 2.
\<close>

theorem handles_increase_until_wrap:
  assumes "length (dispensed (initial pool devs cbs m) cs) \<le> 4294967294"
  shows "map unat (dispensed (initial pool devs cbs m) cs) =
           [2..<length (dispensed (initial pool devs cbs m) cs) + 2] \<and>
         sorted_wrt (<) (map unat (dispensed (initial pool devs cbs m) cs)) \<and>
         distinct (dispensed (initial pool devs cbs m) cs) \<and>
         (\<forall>h \<in> set (dispensed (initial pool devs cbs m) cs). 2 \<le> unat h)"
proof -
  let ?hs = "dispensed (initial pool devs cbs m) cs"
  let ?n = "length ?hs"
  have "?hs = map (\<lambda>k. lastGeneratedHidHandle (initial pool devs cbs m) + of_nat (Suc k)) [0..<?n]"
    by (rule dispensed_counts_up)
  then have hs: "?hs = map (\<lambda>k. (1 :: u32) + of_nat (Suc k)) [0..<?n]"
    by (simp add: initial_def)
  have "\<And>k. k < ?n \<Longrightarrow> unat ((1 :: u32) + of_nat (Suc k)) = k + 2"
  proof -
    fix k assume "k < ?n"
    with assms have "unat (1 :: u32) + Suc k < 2 ^ 32" by simp
    then have "unat ((1 :: u32) + of_nat (Suc k)) = unat (1 :: u32) + Suc k"
      by (rule unat_counts_up)
    then show "unat ((1 :: u32) + of_nat (Suc k)) = k + 2" by simp
  qed
  then have "map unat (map (\<lambda>k. (1 :: u32) + of_nat (Suc k)) [0..<?n]) = map (\<lambda>k. k + 2) [0..<?n]"
    by (simp del: of_nat_Suc)
  with hs have "map unat ?hs = map (\<lambda>k. k + 2) [0..<?n]"
    by (simp only:)
  then have m: "map unat ?hs = [2..<?n + 2]"
    by (simp only: map_add_upt)
  have s: "sorted_wrt (<) (map unat ?hs)"
    by (simp only: m sorted_wrt_upt)
  have "distinct (map unat ?hs)"
    by (simp only: m distinct_upt)
  then have d: "distinct ?hs"
    by (simp only: distinct_map)
  have "\<forall>x \<in> set (map unat ?hs). 2 \<le> x"
    by (auto simp only: m set_upt atLeastLessThan_iff)
  then have "\<forall>h \<in> set ?hs. 2 \<le> unat h"
    by simp
  with m s d show ?thesis by blast
qed

theorem handles_increase_until_wrap_witness:
  "length (dispensed boot [CallAttachDevice 0, CallDetachDevice 0, CallAttachDevice 0]) \<le> 4294967294 \<and>
   dispensed boot [CallAttachDevice 0, CallDetachDevice 0, CallAttachDevice 0] = [2, 3] \<and>
   sorted_wrt (<) (map unat (dispensed boot [CallAttachDevice 0, CallDetachDevice 0, CallAttachDevice 0]))"
proof -
  have e: "dispensed boot [CallAttachDevice 0, CallDetachDevice 0, CallAttachDevice 0] = [2, 3]"
    by (simp add: AttachDevice_eq DetachDevice_eq attached_def detached_def m_hid_handle_def
        free_slots_def boot_def initial_def HID_MAX_NUM_DEVICES_def upt_rec [of 0] upt_rec [of "Suc 0"])
  then have l: "length (dispensed (initial (\<lambda>i. blank_HID) (\<lambda>d. pad) (\<lambda>c. 0) (\<lambda>a. 0))
      [CallAttachDevice 0, CallDetachDevice 0, CallAttachDevice 0]) \<le> 4294967294"
    by (simp add: boot_def)
  from handles_increase_until_wrap [OF l] e show ?thesis
    by (simp add: boot_def)
qed

section \<open>Read and Write\<close>

lemma attach_boot: "AttachDevice boot 0 = (True, attached boot 0 0 [1..<128])"
  by (simp add: AttachDevice_eq boot_fields upt_rec [of 0])

lemma ready_eq:
  "ready = (attached boot 0 0 [1..<128])
     \<lparr>devices := (devices (attached boot 0 0 [1..<128]))
        (0 := (devices (attached boot 0 0 [1..<128]) 0)\<lparr>isOpened := True\<rparr>),
      trace := trace (attached boot 0 0 [1..<128]) @ [(0, DeviceOpenCalled 0)]\<rparr>"
  by (simp add: ready_def attach_boot Device_Open_def emit_def Let_def attached_def boot_fields
      boot_objects pad_def)

lemma ready_fields:
  "deviceList ready = [0]" "m_hid (devices ready 0) = Some 0" "isOpened (devices ready 0)"
  "handle (HIDPool ready 0) = 2" "memory ready = (\<lambda>a. 0)" "asyncCallbacks ready = []"
  "threads ready = []" "coreCallbacks ready = []"
  "devRead (devices ready 0) = (\<lambda>m p n. (ReadSuccess, 0, m))"
  "devWrite (devices ready 0) = (\<lambda>m p n. (WriteSuccess, 10))"
  "devGetDescriptor (devices ready 0) = (\<lambda>descType descIndex lang n. (True, [0x12, 0x01]))"
  by (simp_all add: ready_eq attached_def boot_fields boot_objects pad_def)

lemma size_t_of_sint32_nonneg:
  assumes "0 \<le>s n"
  shows "size_t_of_sint32 n = nat (sint n)"
proof -
  from assms have nn: "0 \<le> sint n" by (simp only: word_sle_eq sint_0)
  have "sint n < 2 ^ 31" using sint_lt [of n] by simp
  then have lt: "sint n < 2 ^ 64" by simp
  have "uint (scast n :: 64 word) = sint n mod 2 ^ 64"
    by (simp only: scast_eq uint_word_of_int) simp
  with nn lt have "uint (scast n :: 64 word) = sint n" by simp
  then show ?thesis
    by (simp only: size_t_of_sint32_def unat_eq_nat_uint)
qed

lemma size_t_of_sint32_negative:
  assumes "n <s 0"
  shows "2 ^ 64 - 2 ^ 31 \<le> size_t_of_sint32 n"
proof -
  from assms have neg: "sint n < 0" by (simp only: word_sless_alt sint_0)
  have ge: "- (2 ^ 31) \<le> sint n" using sint_ge [of n] by simp
  have "uint (scast n :: 64 word) = sint n mod 2 ^ 64"
    by (simp only: scast_eq uint_word_of_int) simp
  also have "\<dots> = (sint n + 2 ^ 64) mod 2 ^ 64"
    by (simp only: mod_add_self2)
  also have "\<dots> = sint n + 2 ^ 64"
  proof (rule mod_pos_pos_trivial)
    from ge show "0 \<le> sint n + 2 ^ 64" by simp
    from neg show "sint n + 2 ^ 64 < 2 ^ 64" by simp
  qed
  finally have u: "uint (scast n :: 64 word) = sint n + 2 ^ 64" .
  from ge have "(2 :: int) ^ 64 - 2 ^ 31 \<le> sint n + 2 ^ 64" by simp
  with u have "(2 :: int) ^ 64 - 2 ^ 31 \<le> uint (scast n :: 64 word)" by (simp only:)
  then have "nat (2 ^ 64 - 2 ^ 31) \<le> nat (uint (scast n :: 64 word))"
    by (rule nat_mono)
  moreover have "nat (2 ^ 64 - 2 ^ 31) = (2 :: nat) ^ 64 - 2 ^ 31" by simp
  ultimately show ?thesis
    by (simp only: size_t_of_sint32_def unat_eq_nat_uint)
qed

lemma memset_nonneg:
  assumes "0 \<le>s n"
  shows "memset m p v (size_t_of_sint32 n) =
           Some (\<lambda>a. if p \<le> a \<and> a < p + nat (sint n) then v else m a)"
proof -
  have "sint n < 2 ^ 31" using sint_lt [of n] by simp
  then have "nat (sint n) < 2 ^ 63" by simp
  then show ?thesis
    by (simp add: memset_def size_t_of_sint32_nonneg [OF assms])
qed

lemma memset_negative:
  assumes "n <s 0"
  shows "memset m p v (size_t_of_sint32 n) = None"
proof -
  have "(2 :: nat) ^ 63 \<le> 2 ^ 64 - 2 ^ 31" by simp
  from this size_t_of_sint32_negative [OF assms] have "(2 :: nat) ^ 63 \<le> size_t_of_sint32 n"
    by (rule order_trans)
  then show ?thesis by (simp add: memset_def)
qed

text \<open>
  With a negative \<open>maxLength\<close> a read from an open device does not return: the program
  dies in \<open>memset\<close>, in the synchronous core as in the thread of an asynchronous read.
\<close>

lemma hidReadInternalSync_negative_length:
  assumes "isOpened (devices s d)" "n <s 0"
  shows "hidReadInternalSync s d data n = None" "hidReadAsync s d data n f p = None"
  using assms by (simp_all add: hidReadAsync_def hidReadInternalSync_def memset_negative)


text \<open>
  C1. On an attached, open device the synchronous core of Write returns the
  \<open>bytesWritten\<close> of the message on Success (0 included), -1 on Error and -108 on
  ErrorTimeout. The core of Read, called with a length that is not negative, clears the
  buffer, asks the device and returns in the same way the \<open>bytesRead\<close> of the message, -1
  or -108. The asynchronous wrappers queue one callback with the handle of the device and
  the buffer address: error code 0 and the byte count as length on Success, where the byte
  count is a count, that is not negative as a \<open>sint32\<close>; error code -1 or -108 and
  length 0 otherwise.
\<close>

theorem read_write_status:
  assumes "m_hid (devices s d) = Some i" "isOpened (devices s d)"
    "devWrite (devices s d) (memory s) data n = (w, bw)"
  shows
    "(0 \<le>s n \<longrightarrow>
        (\<exists>z. memset (memory s) data 0 (size_t_of_sint32 n) = Some z \<and>
           (\<forall>r br m'. devRead (devices s d) z data n = (r, br, m') \<longrightarrow>
              map_option fst (hidReadInternalSync s d data n) =
                Some (case r of ReadSuccess \<Rightarrow> br | ReadError \<Rightarrow> - 1 | ReadErrorTimeout \<Rightarrow> - 108) \<and>
              ((r = ReadSuccess \<longrightarrow> 0 \<le>s br) \<longrightarrow>
                 map_option asyncCallbacks (hidReadAsync s d data n f p) =
                   Some (asyncCallbacks s @
                     [TransferCallback f (handle (HIDPool s i))
                        (case r of ReadSuccess \<Rightarrow> 0 | ReadError \<Rightarrow> - 1 | ReadErrorTimeout \<Rightarrow> - 108)
                        data
                        (case r of ReadSuccess \<Rightarrow> br | ReadError \<Rightarrow> 0 | ReadErrorTimeout \<Rightarrow> 0)
                        p]))))) \<and>
     fst (hidWriteInternalSync s d data n) =
       (case w of WriteSuccess \<Rightarrow> bw | WriteError \<Rightarrow> - 1 | WriteErrorTimeout \<Rightarrow> - 108) \<and>
     ((w = WriteSuccess \<longrightarrow> 0 \<le>s bw) \<longrightarrow>
        map_option asyncCallbacks (hidWriteAsync s d data n f p) =
          Some (asyncCallbacks s @
            [TransferCallback f (handle (HIDPool s i))
               (case w of WriteSuccess \<Rightarrow> 0 | WriteError \<Rightarrow> - 1 | WriteErrorTimeout \<Rightarrow> - 108)
               data
               (case w of WriteSuccess \<Rightarrow> bw | WriteError \<Rightarrow> 0 | WriteErrorTimeout \<Rightarrow> 0) p]))"
proof (intro conjI impI)
  have neg: "(- 1 :: s32) <s 0" "(- 108 :: s32) <s 0" "\<not> (0 :: s32) <s - 1" "\<not> (0 :: s32) <s - 108"
    by (simp_all add: word_sless_alt)
  show "fst (hidWriteInternalSync s d data n) =
       (case w of WriteSuccess \<Rightarrow> bw | WriteError \<Rightarrow> - 1 | WriteErrorTimeout \<Rightarrow> - 108)"
    using assms(2,3) by (cases w) (simp_all add: hidWriteInternalSync_def)
  {
    assume nn: "w = WriteSuccess \<longrightarrow> 0 \<le>s bw"
    show "map_option asyncCallbacks (hidWriteAsync s d data n f p) =
          Some (asyncCallbacks s @
            [TransferCallback f (handle (HIDPool s i))
               (case w of WriteSuccess \<Rightarrow> 0 | WriteError \<Rightarrow> - 1 | WriteErrorTimeout \<Rightarrow> - 108)
               data
               (case w of WriteSuccess \<Rightarrow> bw | WriteError \<Rightarrow> 0 | WriteErrorTimeout \<Rightarrow> 0) p])"
    proof (cases w)
      case WriteSuccess
      with nn have "0 \<le> sint bw"
        by (simp add: word_sle_eq)
      then have "\<not> bw <s 0" "\<not> 0 <s bw \<Longrightarrow> bw = 0"
        by (auto simp add: word_sless_alt signed_eq_0_iff)
      with WriteSuccess assms show ?thesis
        by (auto simp add: hidWriteAsync_def hidWriteInternalSync_def m_hid_handle_def
            DoHIDTransferCallback_def coreinitAsyncCallback_add_def emit_def)
    next
      case WriteError
      with assms neg show ?thesis
        by (simp add: hidWriteAsync_def hidWriteInternalSync_def m_hid_handle_def
            DoHIDTransferCallback_def coreinitAsyncCallback_add_def emit_def)
    next
      case WriteErrorTimeout
      with assms neg show ?thesis
        by (simp add: hidWriteAsync_def hidWriteInternalSync_def m_hid_handle_def
            DoHIDTransferCallback_def coreinitAsyncCallback_add_def emit_def)
    qed
  }
  assume len: "0 \<le>s n"
  let ?z = "\<lambda>a. if data \<le> a \<and> a < data + nat (sint n) then 0 else memory s a"
  have z: "memset (memory s) data 0 (size_t_of_sint32 n) = Some ?z"
    using len by (rule memset_nonneg)
  have "\<forall>r br m'. devRead (devices s d) ?z data n = (r, br, m') \<longrightarrow>
      map_option fst (hidReadInternalSync s d data n) =
        Some (case r of ReadSuccess \<Rightarrow> br | ReadError \<Rightarrow> - 1 | ReadErrorTimeout \<Rightarrow> - 108) \<and>
      ((r = ReadSuccess \<longrightarrow> 0 \<le>s br) \<longrightarrow>
         map_option asyncCallbacks (hidReadAsync s d data n f p) =
           Some (asyncCallbacks s @
             [TransferCallback f (handle (HIDPool s i))
                (case r of ReadSuccess \<Rightarrow> 0 | ReadError \<Rightarrow> - 1 | ReadErrorTimeout \<Rightarrow> - 108)
                data
                (case r of ReadSuccess \<Rightarrow> br | ReadError \<Rightarrow> 0 | ReadErrorTimeout \<Rightarrow> 0)
                p]))"
  proof (intro allI impI conjI)
    fix r br m'
    assume dr: "devRead (devices s d) ?z data n = (r, br, m')"
    from assms(2) z dr
    have core: "hidReadInternalSync s d data n =
        Some (case r of ReadSuccess \<Rightarrow> br | ReadError \<Rightarrow> - 1 | ReadErrorTimeout \<Rightarrow> - 108,
              s\<lparr>memory := m'\<rparr>)"
      by (cases r) (simp_all add: hidReadInternalSync_def)
    then show "map_option fst (hidReadInternalSync s d data n) =
        Some (case r of ReadSuccess \<Rightarrow> br | ReadError \<Rightarrow> - 1 | ReadErrorTimeout \<Rightarrow> - 108)"
      by simp
    assume nn: "r = ReadSuccess \<longrightarrow> 0 \<le>s br"
    show "map_option asyncCallbacks (hidReadAsync s d data n f p) =
           Some (asyncCallbacks s @
             [TransferCallback f (handle (HIDPool s i))
                (case r of ReadSuccess \<Rightarrow> 0 | ReadError \<Rightarrow> - 1 | ReadErrorTimeout \<Rightarrow> - 108)
                data
                (case r of ReadSuccess \<Rightarrow> br | ReadError \<Rightarrow> 0 | ReadErrorTimeout \<Rightarrow> 0)
                p])"
    proof (cases r)
      case ReadSuccess
      with nn have "0 \<le> sint br"
        by (simp add: word_sle_eq)
      then have "\<not> br <s 0" "\<not> 0 <s br \<Longrightarrow> br = 0"
        by (auto simp add: word_sless_alt signed_eq_0_iff)
      with ReadSuccess assms(1) core show ?thesis
        by (auto simp add: hidReadAsync_def m_hid_handle_def
            DoHIDTransferCallback_def coreinitAsyncCallback_add_def emit_def)
    next
      case ReadError
      with assms(1) core neg show ?thesis
        by (simp add: hidReadAsync_def m_hid_handle_def
            DoHIDTransferCallback_def coreinitAsyncCallback_add_def emit_def)
    next
      case ReadErrorTimeout
      with assms(1) core neg show ?thesis
        by (simp add: hidReadAsync_def m_hid_handle_def
            DoHIDTransferCallback_def coreinitAsyncCallback_add_def emit_def)
    qed
  qed
  with z show "\<exists>z. memset (memory s) data 0 (size_t_of_sint32 n) = Some z \<and>
           (\<forall>r br m'. devRead (devices s d) z data n = (r, br, m') \<longrightarrow>
              map_option fst (hidReadInternalSync s d data n) =
                Some (case r of ReadSuccess \<Rightarrow> br | ReadError \<Rightarrow> - 1 | ReadErrorTimeout \<Rightarrow> - 108) \<and>
              ((r = ReadSuccess \<longrightarrow> 0 \<le>s br) \<longrightarrow>
                 map_option asyncCallbacks (hidReadAsync s d data n f p) =
                   Some (asyncCallbacks s @
                     [TransferCallback f (handle (HIDPool s i))
                        (case r of ReadSuccess \<Rightarrow> 0 | ReadError \<Rightarrow> - 1 | ReadErrorTimeout \<Rightarrow> - 108)
                        data
                        (case r of ReadSuccess \<Rightarrow> br | ReadError \<Rightarrow> 0 | ReadErrorTimeout \<Rightarrow> 0)
                        p])))"
    by blast
qed

theorem read_write_status_witness:
  "m_hid (devices ready 0) = Some 0 \<and> isOpened (devices ready 0) \<and> (0 :: s32) \<le>s 20 \<and>
   map_option fst (hidReadInternalSync ready 0 256 20) = Some 0 \<and>
   map_option asyncCallbacks (hidReadAsync ready 0 256 20 0x1000 0x2000) =
     Some [TransferCallback 0x1000 2 0 256 0 0x2000] \<and>
   fst (hidWriteInternalSync ready 0 256 20) = 10 \<and>
   map_option asyncCallbacks (hidWriteAsync ready 0 256 20 0x1000 0x2000) =
     Some [TransferCallback 0x1000 2 0 256 10 0x2000]"
  using read_write_status [where s = ready and d = 0 and i = 0 and data = 256 and n = 20
      and w = WriteSuccess and bw = 10 and f = "0x1000" and p = "0x2000"]
  by (auto simp add: ready_fields word_sle_eq)

text \<open>
  C7. When the device is closed, the synchronous core of Read returns -1 and the state,
  guest memory included, is the one before the call, whatever the length. When it is open
  and the length is not negative, the device is asked to read into a memory whose bytes
  from \<open>data\<close> up to \<open>data + maxLength\<close> are zero and whose other bytes are
  untouched; the call returns the status of that read, whatever its verdict, and what the
  device leaves behind is the memory after the call.
\<close>

theorem read_clears_buffer_when_open:
  "(\<not> isOpened (devices s d) \<longrightarrow> hidReadInternalSync s d data n = Some (- 1, s)) \<and>
   (isOpened (devices s d) \<and> 0 \<le>s n \<longrightarrow>
      (\<exists>z. memset (memory s) data 0 (size_t_of_sint32 n) = Some z \<and>
         (\<forall>a. z a = (if data \<le> a \<and> a < data + nat (sint n) then 0 else memory s a)) \<and>
         hidReadInternalSync s d data n =
           Some (case fst (devRead (devices s d) z data n) of
                   ReadSuccess \<Rightarrow> fst (snd (devRead (devices s d) z data n))
                 | ReadError \<Rightarrow> - 1
                 | ReadErrorTimeout \<Rightarrow> - 108,
                 s\<lparr>memory := snd (snd (devRead (devices s d) z data n))\<rparr>)))"
proof (intro conjI impI)
  assume "\<not> isOpened (devices s d)"
  then show "hidReadInternalSync s d data n = Some (- 1, s)"
    by (simp add: hidReadInternalSync_def)
next
  assume a: "isOpened (devices s d) \<and> 0 \<le>s n"
  let ?z = "\<lambda>a. if data \<le> a \<and> a < data + nat (sint n) then 0 else memory s a"
  from a have z: "memset (memory s) data 0 (size_t_of_sint32 n) = Some ?z"
    by (simp add: memset_nonneg)
  obtain r br m' where dr: "devRead (devices s d) ?z data n = (r, br, m')"
    by (cases "devRead (devices s d) ?z data n")
  from a z dr have "hidReadInternalSync s d data n =
      Some (case r of ReadSuccess \<Rightarrow> br | ReadError \<Rightarrow> - 1 | ReadErrorTimeout \<Rightarrow> - 108,
            s\<lparr>memory := m'\<rparr>)"
    by (cases r) (simp_all add: hidReadInternalSync_def)
  with dr have "hidReadInternalSync s d data n =
      Some (case fst (devRead (devices s d) ?z data n) of
              ReadSuccess \<Rightarrow> fst (snd (devRead (devices s d) ?z data n))
            | ReadError \<Rightarrow> - 1
            | ReadErrorTimeout \<Rightarrow> - 108,
            s\<lparr>memory := snd (snd (devRead (devices s d) ?z data n))\<rparr>)"
    by (cases r) simp_all
  with z show "\<exists>z. memset (memory s) data 0 (size_t_of_sint32 n) = Some z \<and>
         (\<forall>a. z a = (if data \<le> a \<and> a < data + nat (sint n) then 0 else memory s a)) \<and>
         hidReadInternalSync s d data n =
           Some (case fst (devRead (devices s d) z data n) of
                   ReadSuccess \<Rightarrow> fst (snd (devRead (devices s d) z data n))
                 | ReadError \<Rightarrow> - 1
                 | ReadErrorTimeout \<Rightarrow> - 108,
                 s\<lparr>memory := snd (snd (devRead (devices s d) z data n))\<rparr>)"
    by (intro exI [of _ ?z]) simp
qed

theorem read_clears_buffer_when_open_witness:
  "isOpened (devices ready 0) \<and> (0 :: s32) \<le>s 20 \<and>
   map_option (\<lambda>r. (fst r, map (memory (snd r)) [255, 256, 275, 276]))
     (hidReadInternalSync (ready\<lparr>memory := marked_memory\<rparr>) 0 256 20) =
     Some (0, [0xAA, 0, 0, 0xAA]) \<and>
   \<not> isOpened (devices boot 0) \<and>
   hidReadInternalSync (boot\<lparr>memory := marked_memory\<rparr>) 0 256 20 =
     Some (- 1, boot\<lparr>memory := marked_memory\<rparr>)"
  using read_clears_buffer_when_open [of "ready\<lparr>memory := marked_memory\<rparr>" 0 256 20]
    read_clears_buffer_when_open [of "boot\<lparr>memory := marked_memory\<rparr>" 0 256 20]
  by (auto simp add: ready_fields boot_objects pad_def word_sle_eq marked_memory_def)

text \<open>
  C10. \<open>HIDDecodeError\<close> does not look at the error code: it stores 0x3FF at its
  first output parameter, then -0x7FFF at its second, as big-endian 32-bit values, changes
  nothing else and returns 0. Afterwards the second parameter holds -32767, and so does the
  first hold 0x3FF when the two objects do not overlap.
\<close>

theorem decode_error_is_constant:
  "export_HIDDecodeError s errorCode ukn0 ukn1 =
     (0, s\<lparr>memory := store_u32be (store_u32be (memory s) ukn0 0x3FF) ukn1 (- 0x7FFF)\<rparr>) \<and>
   export_HIDDecodeError s errorCode ukn0 ukn1 = export_HIDDecodeError s errorCode' ukn0 ukn1 \<and>
   load_u32be (memory (snd (export_HIDDecodeError s errorCode ukn0 ukn1))) ukn1 = - 0x7FFF \<and>
   sint (load_u32be (memory (snd (export_HIDDecodeError s errorCode ukn0 ukn1))) ukn1) = - 32767 \<and>
   (ukn0 + 4 \<le> ukn1 \<or> ukn1 + 4 \<le> ukn0 \<longrightarrow>
      load_u32be (memory (snd (export_HIDDecodeError s errorCode ukn0 ukn1))) ukn0 = 0x3FF)"
proof -
  have l1: "load_u32be (store_u32be m ukn1 (- 0x7FFF)) ukn1 = - 0x7FFF" for m
    by (simp add: load_u32be_def store_u32be_def)
  have l0: "load_u32be (store_u32be (store_u32be m ukn0 0x3FF) ukn1 v) ukn0 = 0x3FF"
    if "ukn0 + 4 \<le> ukn1 \<or> ukn1 + 4 \<le> ukn0" for m v
    using that by (auto simp add: load_u32be_def store_u32be_def)
  have s: "sint (- 0x7FFF :: u32) = - 32767"
    by simp
  show ?thesis
    by (simp add: export_HIDDecodeError_def l1 l0 s Let_def)
qed

theorem decode_error_is_constant_witness:
  "(256 :: nat) + 4 \<le> 260 \<and>
   fst (export_HIDDecodeError boot 5 256 260) = 0 \<and>
   map (memory (snd (export_HIDDecodeError boot 5 256 260))) [256, 257, 258, 259, 260, 261, 262, 263] =
     [0, 0, 0x03, 0xFF, 0xFF, 0xFF, 0x80, 0x01] \<and>
   load_u32be (memory (snd (export_HIDDecodeError boot 5 256 260))) 256 = 0x3FF"
  using decode_error_is_constant [of boot 5 256 260 0]
  by (simp add: store_u32be_def load_u32be_def boot_objects)



section \<open>The six entry points\<close>

lemma m_hid_handle_lock: "m_hid_handle (lock s) d = m_hid_handle s d"
  by (simp add: m_hid_handle_def lock_def split: option.splits)

lemma GetDeviceByHandle_loop_lock:
  "GetDeviceByHandle_loop (lock s) h ds = GetDeviceByHandle_loop s h ds"
  by (induction ds) (simp_all add: m_hid_handle_lock split: option.splits)

lemma GetDeviceByHandle_eq:
  "GetDeviceByHandle s h openIfClosed =
     (case GetDeviceByHandle_loop s h (deviceList s) of
        None \<Rightarrow> None
      | Some None \<Rightarrow> Some (None, s)
      | Some (Some d) \<Rightarrow>
          if openIfClosed \<and> \<not> isOpened (devices s d)
          then (if openSucceeds (devices s d)
                then Some (Some d, s\<lparr>devices := (devices s)(d := (devices s d)\<lparr>isOpened := True\<rparr>),
                                      trace := trace s @ [(hidMutex s, DeviceOpenCalled d)]\<rparr>)
                else Some (None, s\<lparr>trace := trace s @ [(hidMutex s, DeviceOpenCalled d)]\<rparr>))
          else Some (Some d, s))"
proof -
  have "deviceList (lock s) = deviceList s" by (simp add: lock_def)
  then show ?thesis
    by (cases s)
       (simp add: GetDeviceByHandle_def GetDeviceByHandle_loop_lock unlock_lock Let_def
          Device_Open_def emit_def split: option.splits)
qed

lemma GetDeviceByHandle_ready: "GetDeviceByHandle ready 2 True = Some (Some 0, ready)"
  by (simp add: GetDeviceByHandle_eq ready_fields m_hid_handle_def)



lemma export_HIDRead_closed_device:
  assumes "GetDeviceByHandle_loop s h (deviceList s) = Some (Some d)" "\<not> isOpened (devices s d)"
  shows "export_HIDRead s h data n MPTR_NULL p =
     (if openSucceeds (devices s d)
      then hidReadInternalSync
             (s\<lparr>devices := (devices s)(d := (devices s d)\<lparr>isOpened := True\<rparr>),
                trace := trace s @ [(hidMutex s, DeviceOpenCalled d)]\<rparr>) d data n
      else Some (- 1, s\<lparr>trace := trace s @ [(hidMutex s, DeviceOpenCalled d)]\<rparr>))"
  using assms by (simp add: export_HIDRead_def GetDeviceByHandle_eq hidReadSync_def)

text \<open>
  C6 as written fails: the synchronous \<open>HIDGetDescriptor\<close> returns \<open>outputMaxLength\<close>,
  the size of the caller's buffer, not the number of bytes the device stored. The device
  below stores a descriptor of two bytes into a buffer of eight: the call returns 8, and six
  of the eight bytes are as they were.
\<close>

theorem get_descriptor_returns_bytes_written_counterexample:
  "export_HIDGetDescriptor (ready\<lparr>memory := marked_memory\<rparr>) 2 1 0 0 512 8 MPTR_NULL 0 =
     Some (8, ready\<lparr>memory := write_bytes marked_memory 512 [0x12, 0x01]\<rparr>) \<and>
   devGetDescriptor (devices ready 0) 1 0 0 8 = (True, [0x12, 0x01]) \<and>
   read_bytes (write_bytes marked_memory 512 [0x12, 0x01]) 512 8 =
     [0x12, 0x01, 0xAA, 0xAA, 0xAA, 0xAA, 0xAA, 0xAA]"
proof (intro conjI)
  have resolved: "GetDeviceByHandle (ready\<lparr>memory := marked_memory\<rparr>) 2 True =
      Some (Some 0, ready\<lparr>memory := marked_memory\<rparr>)"
    by (simp add: GetDeviceByHandle_eq ready_fields m_hid_handle_def)
  show "export_HIDGetDescriptor (ready\<lparr>memory := marked_memory\<rparr>) 2 1 0 0 512 8 MPTR_NULL 0 =
      Some (8, ready\<lparr>memory := write_bytes marked_memory 512 [0x12, 0x01]\<rparr>)"
    by (simp add: export_HIDGetDescriptor_def resolved Device_GetDescriptor_def ready_fields)
  show "devGetDescriptor (devices ready 0) 1 0 0 8 = (True, [0x12, 0x01])"
    by (simp add: ready_fields)
  show "read_bytes (write_bytes marked_memory 512 [0x12, 0x01]) 512 8 =
      [0x12, 0x01, 0xAA, 0xAA, 0xAA, 0xAA, 0xAA, 0xAA]"
    by (simp add: write_bytes_def read_bytes_def marked_memory_def
        upt_rec [of 512] upt_rec [of 513] upt_rec [of 514] upt_rec [of 515] upt_rec [of 516]
        upt_rec [of 517] upt_rec [of 518] upt_rec [of 519] upt_rec [of 520])
qed

text \<open>
  C6, amended. A synchronous \<open>HIDGetDescriptor\<close> on a resolved device returns
  \<open>outputMaxLength\<close> when the device reports success and -1 when it reports failure; the
  bytes the device produced are stored at the start of the output buffer either way.
\<close>

theorem get_descriptor_returns_buffer_size:
  assumes "GetDeviceByHandle s h True = Some (Some d, s1)"
  shows "export_HIDGetDescriptor s h descType descIndex lang output outputMaxLength MPTR_NULL cbParam =
     Some (if fst (devGetDescriptor (devices s1 d) descType descIndex lang outputMaxLength)
           then outputMaxLength else - 1,
           s1\<lparr>memory := write_bytes (memory s1) output
                 (snd (devGetDescriptor (devices s1 d) descType descIndex lang outputMaxLength))\<rparr>)"
  using assms
  by (simp add: export_HIDGetDescriptor_def Device_GetDescriptor_def split: prod.splits)

theorem get_descriptor_returns_buffer_size_witness:
  "GetDeviceByHandle ready 2 True = Some (Some 0, ready) \<and>
   map_option fst (export_HIDGetDescriptor ready 2 1 0 0 512 8 MPTR_NULL 0) = Some 8"
  using get_descriptor_returns_buffer_size [OF GetDeviceByHandle_ready, of 1 0 0 512 8 0]
  by (simp add: GetDeviceByHandle_ready ready_fields)




end
